theory Spec2Isabelle
  imports Complex_Main "HOL-Library.Word"
begin

unbundle bit_operations_syntax

section \<open>Numbers\<close>

text \<open>
  The engine (\<^verbatim>\<open>src/lib/monteCarlo.ts\<close>) computes with JavaScript numbers. Three
  views of them are used here, each where the source uses it:
  \<^item> the generator's state words and every bitwise operation (\<^verbatim>\<open>^\<close>, \<^verbatim>\<open><<\<close>,
    \<^verbatim>\<open>>>>\<close>) are 32-bit words;
  \<^item> seeds, the trial count and the horizon are integers; where the source multiplies
    or adds integer-valued numbers beyond \<open>2^53\<close> before truncating with \<^verbatim>\<open>>>> 0\<close>,
    the float64 rounding of the exact integer is written out (\<open>f64_of_int\<close>);
  \<^item> money amounts and rates are real numbers: float64 rounding, overflow and NaN
    inside the simulation arithmetic are not represented.
\<close>

type_synonym u32 = "32 word"

text \<open>The number of low bits a float64 drops from a natural number of this size.\<close>

function f64_exp :: "nat \<Rightarrow> nat" where
  "f64_exp a = (if a < 9007199254740992 then 0 else Suc (f64_exp (a div 2)))"
  by pat_completeness auto
termination
  by (relation "measure id") auto

declare f64_exp.simps [simp del]

text \<open>The float64 nearest to an integer: 53 significant bits, ties to even.\<close>

definition f64_of_int :: "int \<Rightarrow> int" where
  "f64_of_int n =
     (let a = nat \<bar>n\<bar>;
          e = f64_exp a;
          q = a div 2 ^ e;
          r = a mod 2 ^ e;
          q' = (if 2 * r > 2 ^ e \<or> (2 * r = 2 ^ e \<and> odd q) then q + 1 else q)
      in sgn n * int (q' * 2 ^ e))"

text \<open>\<^verbatim>\<open>x >>> 0\<close> on an integer-valued number: reduction modulo \<open>2^32\<close>.\<close>

definition to_uint32 :: "int \<Rightarrow> u32" where
  "to_uint32 n = word_of_int n"

section \<open>SeededRandom\<close>

record rng =
  s0 :: u32
  s1 :: u32

text \<open>
  The three mixing lines of the constructor, which it applies to \<^verbatim>\<open>seed >>> 0\<close> and to
  \<^verbatim>\<open>(seed + 0x9e3779b9) >>> 0\<close>. The result of \<^verbatim>\<open>^\<close> is a signed 32-bit integer, the
  products are float64 products, and \<^verbatim>\<open>>>> 0\<close> truncates what the product rounded to.
\<close>

definition mix32 :: "u32 \<Rightarrow> u32" where
  "mix32 s =
     (let a = to_uint32 (f64_of_int (sint (s XOR drop_bit 16 s) * 0x85ebca6b));
          b = to_uint32 (f64_of_int (sint (a XOR drop_bit 13 a) * 0xc2b2ae35))
      in b XOR drop_bit 16 b)"

definition SeededRandom :: "int option \<Rightarrow> rng" where
  "SeededRandom seed_opt =
     (let seed = (case seed_opt of None \<Rightarrow> 12345 | Some v \<Rightarrow> v);
          a = mix32 (to_uint32 seed);
          b = mix32 (to_uint32 (f64_of_int (seed + 0x9e3779b9)))
      in if a = 0 \<and> b = 0 then \<lparr>s0 = 1, s1 = b\<rparr> else \<lparr>s0 = a, s1 = b\<rparr>)"

text \<open>The shift-xor lines of \<^verbatim>\<open>next()\<close> applied to the old \<open>s0\<close>.\<close>

definition scramble :: "u32 \<Rightarrow> u32" where
  "scramble x = (let x1 = x XOR push_bit 23 x in x1 XOR drop_bit 17 x1)"

definition next_state :: "rng \<Rightarrow> rng" where
  "next_state g = \<lparr>s0 = s1 g, s1 = scramble (s0 g) XOR s1 g XOR drop_bit 26 (s1 g)\<rparr>"

text \<open>\<^verbatim>\<open>next()\<close>: the uniform draw and the generator after it.\<close>

definition rng_next :: "rng \<Rightarrow> real \<times> rng" where
  "rng_next g =
     (let g' = next_state g
      in (real (unat (s0 g' + s1 g')) / 4294967296, g'))"

text \<open>\<^verbatim>\<open>while (u === 0) u = this.next();\<close> The loop has no bound in the source.\<close>

partial_function (option) next_nonzero :: "rng \<Rightarrow> (real \<times> rng) option" where
  "next_nonzero g =
     (if fst (rng_next g) = 0 then next_nonzero (snd (rng_next g)) else Some (rng_next g))"

definition nextNormal :: "real \<Rightarrow> real \<Rightarrow> rng \<Rightarrow> (real \<times> rng) option" where
  "nextNormal mean std g =
     (case next_nonzero g of
        None \<Rightarrow> None
      | Some (u, g1) \<Rightarrow>
          (case next_nonzero g1 of
             None \<Rightarrow> None
           | Some (v, g2) \<Rightarrow>
               Some (sqrt (- 2 * ln u) * cos (2 * pi * v) * std + mean, g2)))"

section \<open>runMonteCarlo\<close>

record SimulationParams =
  startCorpus :: real
  w0 :: real
  inflation :: real
  inflationSD :: real
  returnInflationCorr :: real
  years :: int
  meanR :: real
  stdR :: real
  taper :: real
  sims :: int
  discretionarySpend :: real
  cutPct :: real
  safeBucketYears :: real
  taperStartYear :: real
  useFirstNYearsReserve :: bool
  reserveR :: real
  randomSeed :: "int option"

text \<open>
  What a field of a \<^verbatim>\<open>YearResult\<close> can hold: a number, NaN (from \<^verbatim>\<open>0 / 0\<close>) or
  \<^verbatim>\<open>undefined\<close> (from reading a typed array out of range).
\<close>

datatype jsval = Num real | NaN | Undefined

record YearResult =
  year :: int
  p10 :: jsval
  p50 :: jsval
  p90 :: jsval
  successRate :: jsval

datatype error = RangeError

text \<open>The variables one trial mutates from year to year.\<close>

record TrialState =
  riskyCorpus :: real
  safeRemain :: real
  w_annual :: real
  w_disc_adj :: real

subsection \<open>One year of one trial\<close>

text \<open>Step 1: the return \<open>r\<close> and the clipped inflation from the two normal draws.\<close>

definition sample_r :: "SimulationParams \<Rightarrow> real \<Rightarrow> real" where
  "sample_r p z1 = meanR p + stdR p * z1"

definition sample_clippedInfl :: "SimulationParams \<Rightarrow> real \<Rightarrow> real \<Rightarrow> real" where
  "sample_clippedInfl p z1 z2 =
     (let corrSqrt = sqrt (max 0 (1 - returnInflationCorr p * returnInflationCorr p));
          annualInfl = inflation p + inflationSD p * (returnInflationCorr p * z1 + corrSqrt * z2)
      in max (- 0.99) annualInfl)"

text \<open>Step 3: the safe bucket compounds before spending.\<close>

definition grow_safe :: "SimulationParams \<Rightarrow> real \<Rightarrow> real" where
  "grow_safe p safe = (if safe > 0 \<and> reserveR p > 0 then safe * (1 + reserveR p) else safe)"

text \<open>The year-over-year adjustment of a spending level (both levels get the same).\<close>

definition adjust_spend :: "SimulationParams \<Rightarrow> int \<Rightarrow> real \<Rightarrow> real \<Rightarrow> real" where
  "adjust_spend p yr clippedInfl w =
     (if yr > 1 then
        (if real_of_int yr \<le> taperStartYear p then w * (1 + clippedInfl)
         else w * ((1 + clippedInfl) * (1 - taper p)))
      else w)"

text \<open>Step 5: the discretionary level after the bad-year cut.\<close>

definition cut_disc :: "SimulationParams \<Rightarrow> bool \<Rightarrow> real \<Rightarrow> real" where
  "cut_disc p isBadYear d = (if isBadYear then d * (1 - cutPct p) else d)"

text \<open>Step 6: \<^verbatim>\<open>totalW = Math.max(0, w_annual - w_disc_adj) + w_disc_adj\<close>.\<close>

definition totalW_of :: "real \<Rightarrow> real \<Rightarrow> real" where
  "totalW_of w d = max 0 (w - d) + d"

text \<open>
  Step 7, the block both modes share: draw from the safe bucket, the overflow from the
  risky corpus. The pair is (riskyCorpus, safeRemain).
\<close>

definition draw_safe_first :: "real \<Rightarrow> real \<times> real \<Rightarrow> real \<times> real" where
  "draw_safe_first totalW b =
     (case b of (risky, safe) \<Rightarrow>
        if safe \<ge> totalW then (risky, safe - totalW)
        else (risky - (totalW - safe), 0))"

definition draw_order :: "SimulationParams \<Rightarrow> int \<Rightarrow> bool \<Rightarrow> real \<Rightarrow> real \<times> real \<Rightarrow> real \<times> real" where
  "draw_order p yr isBadYear totalW b =
     (case b of (risky, safe) \<Rightarrow>
        if useFirstNYearsReserve p then
          (if real_of_int yr \<le> safeBucketYears p \<and> safe > 0 then draw_safe_first totalW (risky, safe)
           else (risky - totalW, safe))
        else
          (if isBadYear \<and> safe > 0 then draw_safe_first totalW (risky, safe)
           else (risky - totalW, safe)))"

text \<open>The body of the year loop up to the clamp of the risky corpus.\<close>

definition year_step :: "SimulationParams \<Rightarrow> int \<Rightarrow> real \<Rightarrow> real \<Rightarrow> TrialState \<Rightarrow> TrialState" where
  "year_step p yr z1 z2 st =
     (let r = sample_r p z1;
          clippedInfl = sample_clippedInfl p z1 z2;
          risky1 = riskyCorpus st * (1 + r);
          safe1 = grow_safe p (safeRemain st);
          w = adjust_spend p yr clippedInfl (w_annual st);
          isBadYear = (r < 0);
          d = cut_disc p isBadYear (adjust_spend p yr clippedInfl (w_disc_adj st));
          totalW = totalW_of w d;
          b = draw_order p yr isBadYear totalW (risky1, safe1)
      in \<lparr>riskyCorpus = max 0 (fst b), safeRemain = snd b, w_annual = w, w_disc_adj = d\<rparr>)"

subsection \<open>The year loop and the trial loop\<close>

text \<open>
  Cell \<^verbatim>\<open>totalByYear[yr * sims + sim]\<close> of the flat buffer is element \<open>yr\<close> of the column
  of trial \<open>sim\<close>: each trial writes exactly the cells of its own column, one per year.
  \<open>year_loop p yr st g\<close> is the loop from year \<open>yr\<close> on; it returns the values recorded
  for the years \<open>yr .. years\<close> and the generator it leaves behind.
\<close>

function year_loop :: "SimulationParams \<Rightarrow> int \<Rightarrow> TrialState \<Rightarrow> rng \<Rightarrow> (real list \<times> rng) option" where
  "year_loop p yr st g =
     (if yr > years p then Some ([], g)
      else
        (case nextNormal 0 1 g of
           None \<Rightarrow> None
         | Some (z1, g1) \<Rightarrow>
             (case nextNormal 0 1 g1 of
                None \<Rightarrow> None
              | Some (z2, g2) \<Rightarrow>
                  (let st' = year_step p yr z1 z2 st;
                       v = riskyCorpus st' + safeRemain st'
                   in if riskyCorpus st' = 0 \<and> safeRemain st' = 0
                      then Some (v # replicate (nat (years p - yr)) 0, g2)
                      else
                        (case year_loop p (yr + 1) st' g2 of
                           None \<Rightarrow> None
                         | Some (vs, g3) \<Rightarrow> Some (v # vs, g3))))))"
  by pat_completeness auto
termination
  by (relation "measure (\<lambda>(p, yr, st, g). nat (years p + 1 - yr))") auto

declare year_loop.simps [simp del]

definition initial_state :: "SimulationParams \<Rightarrow> TrialState" where
  "initial_state p =
     (let safeBucket = safeBucketYears p * w0 p;
          riskyStart = startCorpus p - safeBucket
      in \<lparr>riskyCorpus = max 0 riskyStart,
          safeRemain = (if riskyStart < 0 then startCorpus p else safeBucket),
          w_annual = w0 p,
          w_disc_adj = discretionarySpend p\<rparr>)"

text \<open>One pass of the body of the trial loop: the column for years \<open>0 .. years\<close>.\<close>

definition trial :: "SimulationParams \<Rightarrow> rng \<Rightarrow> (real list \<times> rng) option" where
  "trial p g =
     (let st = initial_state p
      in case year_loop p 1 st g of
           None \<Rightarrow> None
         | Some (vs, g') \<Rightarrow> Some ((riskyCorpus st + safeRemain st) # vs, g'))"

text \<open>\<open>sim_loop p n g\<close>: the remaining \<open>n\<close> trials, in order, on the shared generator.\<close>

fun sim_loop :: "SimulationParams \<Rightarrow> nat \<Rightarrow> rng \<Rightarrow> (real list list \<times> rng) option" where
  "sim_loop p 0 g = Some ([], g)"
| "sim_loop p (Suc n) g =
     (case trial p g of
        None \<Rightarrow> None
      | Some (col, g') \<Rightarrow>
          (case sim_loop p n g' of
             None \<Rightarrow> None
           | Some (cols, g'') \<Rightarrow> Some (col # cols, g'')))"

subsection \<open>Percentiles and success rate\<close>

text \<open>Reading a typed array: \<^verbatim>\<open>undefined\<close> out of range.\<close>

definition at_index :: "real list \<Rightarrow> int \<Rightarrow> jsval" where
  "at_index ys i = (if 0 \<le> i \<and> i < int (length ys) then Num (ys ! nat i) else Undefined)"

text \<open>\<^verbatim>\<open>(successCount / sims) * 100\<close>; the count is 0 whenever \<open>sims\<close> is.\<close>

definition success_pct :: "nat \<Rightarrow> int \<Rightarrow> jsval" where
  "success_pct successCount n =
     (if n = 0 then NaN else Num (real successCount / real_of_int n * 100))"

text \<open>
  The body of the result loop for year \<open>yr\<close>, once \<^verbatim>\<open>yearValues\<close> is allocated: copy
  the year's cells, sort them, read the three percentiles, count the successes.
\<close>

definition year_summary :: "SimulationParams \<Rightarrow> real list list \<Rightarrow> int \<Rightarrow> YearResult" where
  "year_summary p cols yr =
     (let yearValues = sort (map (\<lambda>col. col ! nat yr) cols);
          successCount = length (filter (\<lambda>v. v > 1) yearValues)
      in \<lparr>year = yr,
          p10 = at_index yearValues \<lfloor>0.10 * real_of_int (sims p)\<rfloor>,
          p50 = at_index yearValues \<lfloor>0.50 * real_of_int (sims p)\<rfloor>,
          p90 = at_index yearValues \<lfloor>0.90 * real_of_int (sims p)\<rfloor>,
          successRate = success_pct successCount (sims p)\<rparr>)"

text \<open>\<^verbatim>\<open>new Float64Array(sims)\<close> throws a RangeError for a negative length.\<close>

definition year_result :: "SimulationParams \<Rightarrow> real list list \<Rightarrow> int \<Rightarrow> error + YearResult" where
  "year_result p cols yr =
     (if sims p < 0 then Inl RangeError else Inr (year_summary p cols yr))"

text \<open>The result loop: the first exception ends it.\<close>

fun collect :: "(error + 'a) list \<Rightarrow> error + 'a list" where
  "collect [] = Inr []"
| "collect (x # xs) =
     (case x of
        Inl e \<Rightarrow> Inl e
      | Inr v \<Rightarrow> (case collect xs of Inl e \<Rightarrow> Inl e | Inr vs \<Rightarrow> Inr (v # vs)))"

text \<open>
  \<open>None\<close>: the call does not return. \<open>Some (Inl RangeError)\<close>: the allocation of a typed
  array of negative length throws. The lengths a host refuses to allocate, where the
  same allocation throws as well, depend on the host and are not modelled: the model is
  the call on a host with room for its buffers.
\<close>

definition runMonteCarlo :: "SimulationParams \<Rightarrow> (error + YearResult list) option" where
  "runMonteCarlo p =
     (if (years p + 1) * sims p < 0 then Some (Inl RangeError)
      else
        (case sim_loop p (nat (sims p)) (SeededRandom (randomSeed p)) of
           None \<Rightarrow> None
         | Some (cols, g) \<Rightarrow> Some (collect (map (year_result p cols) [0..years p]))))"

section \<open>The variant without early termination\<close>

text \<open>
  The year loop that keeps advancing a depleted trial through every remaining year
  instead of recording zeros and breaking: the same body, without the exit. It is what
  the early termination is compared with; the source has only \<open>year_loop\<close>.
\<close>

function year_loop_continue :: "SimulationParams \<Rightarrow> int \<Rightarrow> TrialState \<Rightarrow> rng \<Rightarrow> (real list \<times> rng) option" where
  "year_loop_continue p yr st g =
     (if yr > years p then Some ([], g)
      else
        (case nextNormal 0 1 g of
           None \<Rightarrow> None
         | Some (z1, g1) \<Rightarrow>
             (case nextNormal 0 1 g1 of
                None \<Rightarrow> None
              | Some (z2, g2) \<Rightarrow>
                  (let st' = year_step p yr z1 z2 st;
                       v = riskyCorpus st' + safeRemain st'
                   in case year_loop_continue p (yr + 1) st' g2 of
                        None \<Rightarrow> None
                      | Some (vs, g3) \<Rightarrow> Some (v # vs, g3)))))"
  by pat_completeness auto
termination
  by (relation "measure (\<lambda>(p, yr, st, g). nat (years p + 1 - yr))") auto

declare year_loop_continue.simps [simp del]

definition trial_continue :: "SimulationParams \<Rightarrow> rng \<Rightarrow> (real list \<times> rng) option" where
  "trial_continue p g =
     (let st = initial_state p
      in case year_loop_continue p 1 st g of
           None \<Rightarrow> None
         | Some (vs, g') \<Rightarrow> Some ((riskyCorpus st + safeRemain st) # vs, g'))"

fun sim_loop_continue :: "SimulationParams \<Rightarrow> nat \<Rightarrow> rng \<Rightarrow> (real list list \<times> rng) option" where
  "sim_loop_continue p 0 g = Some ([], g)"
| "sim_loop_continue p (Suc n) g =
     (case trial_continue p g of
        None \<Rightarrow> None
      | Some (col, g') \<Rightarrow>
          (case sim_loop_continue p n g' of
             None \<Rightarrow> None
           | Some (cols, g'') \<Rightarrow> Some (col # cols, g'')))"

definition runMonteCarlo_continue :: "SimulationParams \<Rightarrow> (error + YearResult list) option" where
  "runMonteCarlo_continue p =
     (if (years p + 1) * sims p < 0 then Some (Inl RangeError)
      else
        (case sim_loop_continue p (nat (sims p)) (SeededRandom (randomSeed p)) of
           None \<Rightarrow> None
         | Some (cols, g) \<Rightarrow> Some (collect (map (year_result p cols) [0..years p]))))"

section \<open>Notions and examples used in the statements\<close>

text \<open>A generator state other than the all-zero one.\<close>

definition nonzero :: "rng \<Rightarrow> bool" where
  "nonzero g \<longleftrightarrow> s0 g \<noteq> 0 \<or> s1 g \<noteq> 0"

text \<open>The numerator of the draw that \<open>rng_next g\<close> returns.\<close>

definition out_word :: "rng \<Rightarrow> u32" where
  "out_word g = s0 (next_state g) + s1 (next_state g)"

text \<open>The configuration the dashboard starts with (\<^verbatim>\<open>DEFAULT_PARAMS\<close>).\<close>

definition DEFAULT_PARAMS :: SimulationParams where
  "DEFAULT_PARAMS =
     \<lparr>startCorpus = 150000000, w0 = 6000000, inflation = 0.075, inflationSD = 0.02,
      returnInflationCorr = 0.2, years = 40, meanR = 0.11, stdR = 0.18, taper = 0.05,
      sims = 100000, discretionarySpend = 2000000, cutPct = 0.5, safeBucketYears = 5,
      taperStartYear = 20, useFirstNYearsReserve = True, reserveR = 0.055,
      randomSeed = Some 12345\<rparr>"

text \<open>
  The summary of one year as the specification words it: the percentile \<open>q\<close> is the
  value at index \<open>floor (q * sims)\<close> of the year's trial values sorted ascending, and
  the success rate is 100 times the fraction of trials whose value is strictly greater
  than 1.
\<close>

definition spec_percentile :: "real list \<Rightarrow> real \<Rightarrow> int \<Rightarrow> real" where
  "spec_percentile vals q n = sort vals ! nat \<lfloor>q * real_of_int n\<rfloor>"

definition spec_successRate :: "real list \<Rightarrow> int \<Rightarrow> real" where
  "spec_successRate vals n =
     100 * (real (card {i. i < length vals \<and> vals ! i > 1}) / real_of_int n)"

definition spec_YearResult :: "int \<Rightarrow> real list \<Rightarrow> int \<Rightarrow> YearResult" where
  "spec_YearResult yr vals n =
     \<lparr>year = yr,
      p10 = Num (spec_percentile vals 0.10 n),
      p50 = Num (spec_percentile vals 0.50 n),
      p90 = Num (spec_percentile vals 0.90 n),
      successRate = Num (spec_successRate vals n)\<rparr>"

text \<open>The dashboard's configuration under the loss-year-only policy.\<close>

definition loss_year_only_params :: SimulationParams where
  "loss_year_only_params = DEFAULT_PARAMS\<lparr>useFirstNYearsReserve := False\<rparr>"

text \<open>A trial late in the plan: a small risky corpus, a reserve of 100, spending of 50.\<close>

definition late_state :: TrialState where
  "late_state = \<lparr>riskyCorpus = 10, safeRemain = 100, w_annual = 50, w_disc_adj = 0\<rparr>"

text \<open>A configuration with no trials.\<close>

definition no_trials_params :: SimulationParams where
  "no_trials_params = DEFAULT_PARAMS\<lparr>years := 1, sims := 0\<rparr>"

text \<open>A configuration with a negative trial count.\<close>

definition negative_trials_params :: SimulationParams where
  "negative_trials_params = DEFAULT_PARAMS\<lparr>sims := - 1\<rparr>"

text \<open>
  One trial of one year under the loss-year-only policy, with a reserve larger than the
  corpus and a zero mean return, so that the year is a loss year exactly when the first
  normal draw is negative. The seed is the parameter.
\<close>

definition seed_params :: "int \<Rightarrow> SimulationParams" where
  "seed_params s =
     DEFAULT_PARAMS\<lparr>startCorpus := 100, w0 := 20, years := 1, meanR := 0, sims := 1,
                    discretionarySpend := 0, safeBucketYears := 10,
                    useFirstNYearsReserve := False, randomSeed := Some s\<rparr>"

text \<open>
  Two trials of two years under the loss-year-only policy, with a reserve that is the
  whole corpus, spending of twice the corpus, a zero mean return and a fixed inflation:
  a loss year empties the reserve and depletes the trial, any other year leaves the
  reserve alone. The seed is omitted.
\<close>

definition early_exit_params :: SimulationParams where
  "early_exit_params =
     DEFAULT_PARAMS\<lparr>startCorpus := 100, w0 := 200, inflationSD := 0, years := 2, meanR := 0,
                    sims := 2, discretionarySpend := 0, safeBucketYears := 1,
                    useFirstNYearsReserve := False, randomSeed := None\<rparr>"








text \<open>
  Generator objects. \<^verbatim>\<open>new SeededRandom(seed)\<close> allocates an object, and a method called
  on a reference mutates the object the reference points to. To state what calls of
  runMonteCarlo share, the objects are put in a store: the list of the generator objects
  allocated so far, a reference being an index into it. References come from
  \<^verbatim>\<open>new\<close> only, so they are always below the length of the store.
\<close>

type_synonym store = "rng list"

definition new_SeededRandom :: "int option \<Rightarrow> store \<Rightarrow> nat \<times> store" where
  "new_SeededRandom seed h = (length h, h @ [SeededRandom seed])"

text \<open>\<^verbatim>\<open>rng.nextNormal(mean, std)\<close> on the store.\<close>

definition nextNormal_on :: "real \<Rightarrow> real \<Rightarrow> nat \<Rightarrow> store \<Rightarrow> (real \<times> store) option" where
  "nextNormal_on mean std rng h =
     (case nextNormal mean std (h ! rng) of
        None \<Rightarrow> None
      | Some (z, g') \<Rightarrow> Some (z, h[rng := g']))"

text \<open>The year loop, the trial loop and the call, with the draws made through \<open>rng\<close>.\<close>

function year_loop_on :: "SimulationParams \<Rightarrow> int \<Rightarrow> TrialState \<Rightarrow> nat \<Rightarrow> store \<Rightarrow> (real list \<times> store) option" where
  "year_loop_on p yr st rng h =
     (if yr > years p then Some ([], h)
      else
        (case nextNormal_on 0 1 rng h of
           None \<Rightarrow> None
         | Some (z1, h1) \<Rightarrow>
             (case nextNormal_on 0 1 rng h1 of
                None \<Rightarrow> None
              | Some (z2, h2) \<Rightarrow>
                  (let st' = year_step p yr z1 z2 st;
                       v = riskyCorpus st' + safeRemain st'
                   in if riskyCorpus st' = 0 \<and> safeRemain st' = 0
                      then Some (v # replicate (nat (years p - yr)) 0, h2)
                      else
                        (case year_loop_on p (yr + 1) st' rng h2 of
                           None \<Rightarrow> None
                         | Some (vs, h3) \<Rightarrow> Some (v # vs, h3))))))"
  by pat_completeness auto
termination
  by (relation "measure (\<lambda>(p, yr, st, rng, h). nat (years p + 1 - yr))") auto

declare year_loop_on.simps [simp del]

definition trial_on :: "SimulationParams \<Rightarrow> nat \<Rightarrow> store \<Rightarrow> (real list \<times> store) option" where
  "trial_on p rng h =
     (let st = initial_state p
      in case year_loop_on p 1 st rng h of
           None \<Rightarrow> None
         | Some (vs, h') \<Rightarrow> Some ((riskyCorpus st + safeRemain st) # vs, h'))"

fun sim_loop_on :: "SimulationParams \<Rightarrow> nat \<Rightarrow> nat \<Rightarrow> store \<Rightarrow> (real list list \<times> store) option" where
  "sim_loop_on p 0 rng h = Some ([], h)"
| "sim_loop_on p (Suc n) rng h =
     (case trial_on p rng h of
        None \<Rightarrow> None
      | Some (col, h') \<Rightarrow>
          (case sim_loop_on p n rng h' of
             None \<Rightarrow> None
           | Some (cols, h'') \<Rightarrow> Some (col # cols, h'')))"

text \<open>
  One call of runMonteCarlo in a store \<open>h\<close>: the result and the store it leaves. The
  generator is allocated before the buffer is.
\<close>

definition runMonteCarlo_call :: "SimulationParams \<Rightarrow> store \<Rightarrow> ((error + YearResult list) \<times> store) option" where
  "runMonteCarlo_call p h =
     (case new_SeededRandom (randomSeed p) h of
        (rng, h0) \<Rightarrow>
          if (years p + 1) * sims p < 0 then Some (Inl RangeError, h0)
          else
            (case sim_loop_on p (nat (sims p)) rng h0 of
               None \<Rightarrow> None
             | Some (cols, h') \<Rightarrow> Some (collect (map (year_result p cols) [0..years p]), h')))"

text \<open>
  What a computation that threads one generator (as \<open>year_loop\<close>, \<open>trial\<close> and \<open>sim_loop\<close>
  do) does to a store in which that generator is the object \<open>rng\<close>.
\<close>

definition through :: "nat \<Rightarrow> store \<Rightarrow> ('a \<times> rng) option \<Rightarrow> ('a \<times> store) option" where
  "through rng h r = (case r of None \<Rightarrow> None | Some (x, g') \<Rightarrow> Some (x, h[rng := g']))"

section \<open>Facts about the generator\<close>

lemma less32_cases:
  "(n::nat) < 32 \<Longrightarrow>
   n \<in> set [0,1,2,3,4,5,6,7,8,9,10,11,12,13,14,15,16,17,18,19,20,21,22,23,24,25,26,27,28,29,30,31]"
  by (simp; arith)

lemma word32_eq_iff:
  "(a::u32) = b \<longleftrightarrow>
   (\<forall>n\<in>set [0,1,2,3,4,5,6,7,8,9,10,11,12,13,14,15,16,17,18,19,20,21,22,23,24,25,26,27,28,29,30,31].
      bit a n = bit b n)"
proof
  assume h: "\<forall>n\<in>set [0,1,2,3,4,5,6,7,8,9,10,11,12,13,14,15,16,17,18,19,20,21,22,23,24,25,26,27,28,29,30,31].
      bit a n = bit b n"
  show "a = b"
  proof (rule bit_word_eqI)
    fix n assume "n < LENGTH(32)"
    then have "n \<in> set [0,1,2,3,4,5,6,7,8,9,10,11,12,13,14,15,16,17,18,19,20,21,22,23,24,25,26,27,28,29,30,31]"
      using less32_cases by simp
    with h show "bit a n = bit b n" by blast
  qed
qed simp

lemma bit32_oob: "32 \<le> n \<Longrightarrow> bit (x::u32) n = False"
  by (auto dest: bit_imp_le_length)

lemma scramble_zero: "scramble x = 0 \<Longrightarrow> x = 0"
  unfolding scramble_def Let_def word32_eq_iff
  by (simp add: bit_simps bit32_oob)

lemma no_two_cycle:
  fixes x y :: u32
  assumes "scramble x XOR y XOR drop_bit 26 y = x"
      and "scramble y XOR x XOR drop_bit 26 x = y"
  shows "x = 0 \<and> y = 0"
  using assms
  unfolding scramble_def Let_def word32_eq_iff
  apply (simp add: bit_simps bit32_oob)
  apply argo
  done

lemma next_state_nonzero: "nonzero g \<Longrightarrow> nonzero (next_state g)"
proof (rule ccontr)
  assume nz: "nonzero g" and "\<not> nonzero (next_state g)"
  then have a: "s1 g = 0" and b: "scramble (s0 g) XOR s1 g XOR drop_bit 26 (s1 g) = 0"
    by (simp_all add: nonzero_def next_state_def)
  from a b have "scramble (s0 g) = 0" by simp
  then have "s0 g = 0" by (rule scramble_zero)
  with a nz show False by (simp add: nonzero_def)
qed

lemma SeededRandom_nonzero: "nonzero (SeededRandom seed)"
  by (simp add: SeededRandom_def nonzero_def Let_def)

lemma rng_next_eq: "rng_next g = (real (unat (out_word g)) / 4294967296, next_state g)"
  by (simp add: rng_next_def out_word_def Let_def)

lemma draw_zero_iff: "fst (rng_next g) = 0 \<longleftrightarrow> out_word g = 0"
  by (simp add: rng_next_eq unsigned_eq_0_iff)

lemma next_state_two_cycle:
  assumes cyc: "next_state (next_state g) = g"
  shows "\<not> nonzero g"
proof -
  from cyc have "s0 (next_state (next_state g)) = s0 g" by simp
  then have c1: "scramble (s0 g) XOR s1 g XOR drop_bit 26 (s1 g) = s0 g"
    by (simp add: next_state_def)
  from cyc have "s1 (next_state (next_state g)) = s1 g" by simp
  then have "scramble (s1 g) XOR (scramble (s0 g) XOR s1 g XOR drop_bit 26 (s1 g))
      XOR drop_bit 26 (scramble (s0 g) XOR s1 g XOR drop_bit 26 (s1 g)) = s1 g"
    by (simp add: next_state_def)
  then have c2: "scramble (s1 g) XOR s0 g XOR drop_bit 26 (s0 g) = s1 g"
    by (simp only: c1)
  from no_two_cycle [OF c1 c2] show ?thesis by (simp add: nonzero_def)
qed

lemma three_zero_draws:
  assumes z1: "out_word g = 0"
      and z2: "out_word (next_state g) = 0"
      and z3: "out_word (next_state (next_state g)) = 0"
  shows "\<not> nonzero g"
proof -
  define g1 where "g1 = next_state g"
  define g2 where "g2 = next_state g1"
  define g3 where "g3 = next_state g2"
  from z1 have e1: "s1 g1 = - s0 g1"
    by (simp add: out_word_def g1_def add_eq_0_iff)
  from z2 have e2: "s1 g2 = - s0 g2"
    by (simp add: out_word_def g1_def g2_def add_eq_0_iff)
  from z3 have e3: "s1 g3 = - s0 g3"
    by (simp add: out_word_def g1_def g2_def g3_def add_eq_0_iff)
  have n2: "s0 g2 = s1 g1" by (simp add: g2_def next_state_def)
  have n3: "s0 g3 = s1 g2" by (simp add: g3_def next_state_def)
  have "s0 g3 = s0 g1" using e1 e2 n2 n3 by simp
  moreover have "s1 g3 = s1 g1" using e1 e2 e3 n2 n3 by simp
  ultimately have "next_state (next_state g1) = g1"
    unfolding g3_def g2_def by simp
  then have "\<not> nonzero g1" by (rule next_state_two_cycle)
  then show ?thesis unfolding g1_def using next_state_nonzero by blast
qed

lemma next_nonzero_hit:
  "out_word g \<noteq> 0 \<Longrightarrow> next_nonzero g = Some (rng_next g)"
  by (subst next_nonzero.simps) (simp add: draw_zero_iff)

lemma next_nonzero_skip:
  "out_word g = 0 \<Longrightarrow> next_nonzero g = next_nonzero (next_state g)"
  by (subst next_nonzero.simps) (simp add: draw_zero_iff, simp add: rng_next_eq)

text \<open>At most two draws are rejected in a row.\<close>

lemma next_nonzero_total:
  assumes nz: "nonzero g"
  shows "\<exists>g'. next_nonzero g = Some (rng_next g') \<and> out_word g' \<noteq> 0 \<and> nonzero g'"
proof (cases "out_word g = 0")
  case False
  with nz show ?thesis using next_nonzero_hit by blast
next
  case z1: True
  show ?thesis
  proof (cases "out_word (next_state g) = 0")
    case False
    with z1 nz show ?thesis
      using next_nonzero_hit next_nonzero_skip next_state_nonzero by metis
  next
    case z2: True
    with z1 nz have "out_word (next_state (next_state g)) \<noteq> 0"
      using three_zero_draws by blast
    with z1 z2 nz show ?thesis
      using next_nonzero_hit next_nonzero_skip next_state_nonzero by metis
  qed
qed

lemma rng_next_range:
  assumes "out_word g \<noteq> 0"
  shows "1 / 4294967296 \<le> fst (rng_next g) \<and> fst (rng_next g) < 1"
proof -
  have "unat (out_word g) \<noteq> 0" using assms by (simp add: unsigned_eq_0_iff)
  then have "1 \<le> unat (out_word g)" by simp
  then have a: "1 \<le> real (unat (out_word g))" by linarith
  have "unat (out_word g) < 4294967296"
    using unsigned_less [of "out_word g", where ?'a = nat] by simp
  then have b: "real (unat (out_word g)) < 4294967296" by linarith
  have "fst (rng_next g) = real (unat (out_word g)) / 4294967296"
    by (simp only: rng_next_eq fst_conv)
  with a b show ?thesis by (simp only: divide_le_eq less_divide_eq divide_less_eq le_divide_eq) simp
qed

lemma next_nonzero_range:
  assumes "next_nonzero g = Some r"
  shows "1 / 4294967296 \<le> fst r \<and> fst r < 1"
proof (rule next_nonzero.raw_induct [OF _ assms])
  fix nn :: "rng \<Rightarrow> (real \<times> rng) option" and g r
  assume IH: "\<And>x y. nn x = Some y \<Longrightarrow> 1 / 4294967296 \<le> fst y \<and> fst y < 1"
    and eq: "(if fst (rng_next g) = 0 then nn (snd (rng_next g)) else Some (rng_next g)) = Some r"
  show "1 / 4294967296 \<le> fst r \<and> fst r < 1"
  proof (cases "fst (rng_next g) = 0")
    case True
    with eq IH show ?thesis by simp
  next
    case False
    with eq have "r = rng_next g" by simp
    moreover from False have "out_word g \<noteq> 0" by (simp add: draw_zero_iff)
    ultimately show ?thesis using rng_next_range by simp
  qed
qed

lemma next_nonzero_Some_nonzero:
  assumes "next_nonzero g = Some r"
  shows "nonzero g"
proof (rule next_nonzero.raw_induct [OF _ assms])
  fix nn :: "rng \<Rightarrow> (real \<times> rng) option" and g r
  assume IH: "\<And>x y. nn x = Some y \<Longrightarrow> nonzero x"
    and eq: "(if fst (rng_next g) = 0 then nn (snd (rng_next g)) else Some (rng_next g)) = Some r"
  show "nonzero g"
  proof (cases "fst (rng_next g) = 0")
    case True
    with eq IH have "nonzero (snd (rng_next g))" by simp
    then have "nonzero (next_state g)" by (simp add: rng_next_eq)
    then show ?thesis
      by (auto simp: nonzero_def next_state_def scramble_def)
  next
    case False
    then have "out_word g \<noteq> 0" by (simp add: draw_zero_iff)
    then show ?thesis
      by (auto simp: nonzero_def out_word_def next_state_def scramble_def)
  qed
qed

text \<open>From the all-zero state every draw is 0 and the rejection loop never ends.\<close>

lemma next_nonzero_zero_state: "next_nonzero \<lparr>s0 = 0, s1 = 0\<rparr> = None"
proof (cases "next_nonzero \<lparr>s0 = 0, s1 = 0\<rparr>")
  case (Some r)
  then have "nonzero \<lparr>s0 = 0, s1 = 0\<rparr>" by (rule next_nonzero_Some_nonzero)
  then show ?thesis by (simp add: nonzero_def)
qed simp

lemma next_nonzero_total':
  assumes "nonzero g"
  shows "\<exists>u g'. next_nonzero g = Some (u, g') \<and> nonzero g'"
proof -
  from next_nonzero_total [OF assms] obtain h
    where "next_nonzero g = Some (rng_next h)" "nonzero h" by blast
  moreover have "rng_next h = (fst (rng_next h), next_state h)"
    by (simp add: rng_next_eq)
  ultimately have "next_nonzero g = Some (fst (rng_next h), next_state h)"
    by simp
  with \<open>nonzero h\<close> show ?thesis
    using next_state_nonzero [of h] by blast
qed

lemma box_muller_bound:
  assumes u: "1 / 4294967296 \<le> u" "u < 1"
  shows "\<bar>sqrt (- 2 * ln u) * cos (2 * pi * v) * std\<bar> \<le> 8 * \<bar>std\<bar>"
proof -
  have upos: "0 < u" using u by simp
  have "ln (1 / 4294967296) \<le> ln u" using u upos by simp
  moreover have "ln (1 / 4294967296 :: real) = - (32 * ln 2)"
  proof -
    have "(4294967296::real) = 2 ^ 32" by simp
    then have "ln (4294967296::real) = 32 * ln 2" by (simp only: ln_realpow)
    then show ?thesis by (simp add: ln_div)
  qed
  ultimately have "- 2 * ln u \<le> 64 * ln 2" by simp
  also have "\<dots> \<le> 64" using ln_2_less_1 by simp
  finally have "sqrt (- 2 * ln u) \<le> sqrt 64" by (rule real_sqrt_le_mono)
  then have s: "sqrt (- 2 * ln u) \<le> 8" by simp
  have s0: "0 \<le> sqrt (- 2 * ln u)" using u upos ln_less_zero [of u] by simp
  have "\<bar>sqrt (- 2 * ln u) * cos (2 * pi * v) * std\<bar>
        = sqrt (- 2 * ln u) * \<bar>cos (2 * pi * v)\<bar> * \<bar>std\<bar>"
    using s0 by (simp add: abs_mult)
  also have "\<dots> \<le> 8 * 1 * \<bar>std\<bar>"
    by (intro mult_mono s abs_cos_le_one) (use s0 in auto)
  finally show ?thesis by simp
qed

section \<open>Every call returns\<close>

lemma next_nonzero_live:
  assumes "nonzero g" and "next_nonzero g = Some (u, g')"
  shows "nonzero g'"
  using next_nonzero_total' [OF assms(1)] assms(2) by auto

lemma nextNormal_total:
  assumes "nonzero g"
  shows "\<exists>z g'. nextNormal mean std g = Some (z, g') \<and> nonzero g'"
proof -
  from next_nonzero_total' [OF assms] obtain u g1
    where a: "next_nonzero g = Some (u, g1)" "nonzero g1" by blast
  from next_nonzero_total' [OF a(2)] obtain v g2
    where b: "next_nonzero g1 = Some (v, g2)" "nonzero g2" by blast
  from a b show ?thesis by (simp add: nextNormal_def)
qed

lemma nextNormal_live:
  assumes "nonzero g" and "nextNormal mean std g = Some (z, g')"
  shows "nonzero g'"
  using nextNormal_total [OF assms(1), of mean std] assms(2) by auto

subsection \<open>Unfolding the year loops\<close>

lemma year_loop_done: "yr > years p \<Longrightarrow> year_loop p yr st g = Some ([], g)"
  by (subst year_loop.simps) simp

lemma year_loop_exit:
  assumes "yr \<le> years p"
      and "nextNormal 0 1 g = Some (z1, g1)" and "nextNormal 0 1 g1 = Some (z2, g2)"
      and "riskyCorpus (year_step p yr z1 z2 st) = 0"
      and "safeRemain (year_step p yr z1 z2 st) = 0"
  shows "year_loop p yr st g = Some (0 # replicate (nat (years p - yr)) 0, g2)"
  using assms by (subst year_loop.simps) (simp add: Let_def)

lemma year_loop_go:
  assumes "yr \<le> years p"
      and "nextNormal 0 1 g = Some (z1, g1)" and "nextNormal 0 1 g1 = Some (z2, g2)"
      and "\<not> (riskyCorpus (year_step p yr z1 z2 st) = 0 \<and> safeRemain (year_step p yr z1 z2 st) = 0)"
      and "year_loop p (yr + 1) (year_step p yr z1 z2 st) g2 = Some (vs, g3)"
  shows "year_loop p yr st g =
         Some ((riskyCorpus (year_step p yr z1 z2 st) + safeRemain (year_step p yr z1 z2 st)) # vs, g3)"
  using assms by (subst year_loop.simps) (auto simp add: Let_def)

lemma year_loop_continue_done:
  "yr > years p \<Longrightarrow> year_loop_continue p yr st g = Some ([], g)"
  by (subst year_loop_continue.simps) simp

lemma year_loop_continue_go:
  assumes "yr \<le> years p"
      and "nextNormal 0 1 g = Some (z1, g1)" and "nextNormal 0 1 g1 = Some (z2, g2)"
      and "year_loop_continue p (yr + 1) (year_step p yr z1 z2 st) g2 = Some (vs, g3)"
  shows "year_loop_continue p yr st g =
         Some ((riskyCorpus (year_step p yr z1 z2 st) + safeRemain (year_step p yr z1 z2 st)) # vs, g3)"
  using assms by (subst year_loop_continue.simps) (auto simp add: Let_def)

subsection \<open>The loops return\<close>

lemma year_loop_total:
  assumes "nonzero g"
  shows "\<exists>vs g'. year_loop p yr st g = Some (vs, g') \<and> nonzero g'
           \<and> length vs = nat (years p + 1 - yr)"
  using assms
proof (induction "nat (years p + 1 - yr)" arbitrary: yr st g)
  case 0
  then have "yr > years p" by simp
  with 0 show ?case by (simp add: year_loop_done)
next
  case (Suc n)
  then have le: "yr \<le> years p" by linarith
  from nextNormal_total [OF Suc.prems, of 0 1] obtain z1 g1
    where n1: "nextNormal 0 1 g = Some (z1, g1)" "nonzero g1" by blast
  from nextNormal_total [OF n1(2), of 0 1] obtain z2 g2
    where n2: "nextNormal 0 1 g1 = Some (z2, g2)" "nonzero g2" by blast
  let ?st = "year_step p yr z1 z2 st"
  show ?case
  proof (cases "riskyCorpus ?st = 0 \<and> safeRemain ?st = 0")
    case True
    then have "year_loop p yr st g = Some (0 # replicate (nat (years p - yr)) 0, g2)"
      using year_loop_exit [OF le n1(1) n2(1)] by simp
    moreover have "length ((0::real) # replicate (nat (years p - yr)) 0) = nat (years p + 1 - yr)"
      using le by simp
    ultimately show ?thesis using n2(2) by simp
  next
    case False
    have "n = nat (years p + 1 - (yr + 1))" using Suc.hyps(2) by linarith
    from Suc.hyps(1) [OF this n2(2), of ?st] obtain vs g3
      where r: "year_loop p (yr + 1) ?st g2 = Some (vs, g3)" "nonzero g3"
        "length vs = nat (years p + 1 - (yr + 1))" by blast
    from year_loop_go [OF le n1(1) n2(1) False r(1)] r(2,3) le show ?thesis
      by simp
  qed
qed

lemma year_loop_continue_total:
  assumes "nonzero g"
  shows "\<exists>vs g'. year_loop_continue p yr st g = Some (vs, g') \<and> nonzero g'
           \<and> length vs = nat (years p + 1 - yr)"
  using assms
proof (induction "nat (years p + 1 - yr)" arbitrary: yr st g)
  case 0
  then have "yr > years p" by simp
  with 0 show ?case by (simp add: year_loop_continue_done)
next
  case (Suc n)
  then have le: "yr \<le> years p" by linarith
  from nextNormal_total [OF Suc.prems, of 0 1] obtain z1 g1
    where n1: "nextNormal 0 1 g = Some (z1, g1)" "nonzero g1" by blast
  from nextNormal_total [OF n1(2), of 0 1] obtain z2 g2
    where n2: "nextNormal 0 1 g1 = Some (z2, g2)" "nonzero g2" by blast
  let ?st = "year_step p yr z1 z2 st"
  have "n = nat (years p + 1 - (yr + 1))" using Suc.hyps(2) by linarith
  from Suc.hyps(1) [OF this n2(2), of ?st] obtain vs g3
    where r: "year_loop_continue p (yr + 1) ?st g2 = Some (vs, g3)" "nonzero g3"
      "length vs = nat (years p + 1 - (yr + 1))" by blast
  from year_loop_continue_go [OF le n1(1) n2(1) r(1)] r(2,3) le show ?case
    by simp
qed

lemma trial_total:
  assumes "nonzero g"
  shows "\<exists>vs g'. trial p g = Some ((riskyCorpus (initial_state p) + safeRemain (initial_state p)) # vs, g')
           \<and> year_loop p 1 (initial_state p) g = Some (vs, g')
           \<and> nonzero g' \<and> length vs = nat (years p)"
proof -
  from year_loop_total [OF assms, of p 1 "initial_state p"] obtain vs g'
    where "year_loop p 1 (initial_state p) g = Some (vs, g')" "nonzero g'"
      "length vs = nat (years p + 1 - 1)" by blast
  then show ?thesis by (simp add: trial_def Let_def)
qed

lemma sim_loop_total:
  assumes "nonzero g"
  shows "\<exists>cols g'. sim_loop p n g = Some (cols, g') \<and> nonzero g' \<and> length cols = n"
  using assms
proof (induction n arbitrary: g)
  case 0
  then show ?case by simp
next
  case (Suc n)
  from trial_total [OF Suc.prems, of p] obtain col g1
    where t: "trial p g = Some (col, g1)" "nonzero g1" by blast
  from Suc.IH [OF t(2)] obtain cols g2
    where "sim_loop p n g1 = Some (cols, g2)" "nonzero g2" "length cols = n" by blast
  with t show ?case by simp
qed

lemma sim_loop_cols:
  assumes "sim_loop p n g = Some (cols, g')" and "nonzero g" and "col \<in> set cols"
  shows "\<exists>h h'. nonzero h \<and> trial p h = Some (col, h')"
  using assms
proof (induction n arbitrary: g cols g')
  case 0
  then show ?case by simp
next
  case (Suc n)
  from trial_total [OF Suc.prems(2), of p] obtain c g1
    where t: "trial p g = Some (c, g1)" "nonzero g1" by blast
  from sim_loop_total [OF t(2), of p n] obtain cs g2
    where s: "sim_loop p n g1 = Some (cs, g2)" by blast
  from Suc.prems(1) t s have "cols = c # cs" by simp
  with Suc.prems(3) consider "col = c" | "col \<in> set cs" by auto
  then show ?case
  proof cases
    case 1
    with t Suc.prems(2) show ?thesis by blast
  next
    case 2
    from Suc.IH [OF s t(2) 2] show ?thesis .
  qed
qed

section \<open>Facts about one year\<close>

lemma totalW_of_ge: "w \<le> totalW_of w d"
  by (simp add: totalW_of_def max_def)

lemma sample_clippedInfl_ge: "- 0.99 \<le> sample_clippedInfl p z1 z2"
  by (simp add: sample_clippedInfl_def Let_def)

lemma adjust_spend_nonneg:
  assumes "0 \<le> w" and "taper p \<le> 1" and "- 0.99 \<le> c"
  shows "0 \<le> adjust_spend p yr c w"
proof -
  have "0 \<le> 1 + c" using assms(3) by simp
  moreover have "0 \<le> 1 - taper p" using assms(2) by simp
  ultimately show ?thesis using assms(1) by (simp add: adjust_spend_def)
qed

lemma adjust_spend_first: "yr \<le> 1 \<Longrightarrow> adjust_spend p yr c w = w"
  by (simp add: adjust_spend_def)

lemma w_annual_year_step:
  "w_annual (year_step p yr z1 z2 st) = adjust_spend p yr (sample_clippedInfl p z1 z2) (w_annual st)"
  by (simp add: year_step_def Let_def)

lemma w_annual_year_step_nonneg:
  assumes "0 \<le> w_annual st" and "taper p \<le> 1"
  shows "0 \<le> w_annual (year_step p yr z1 z2 st)"
  unfolding w_annual_year_step
  by (rule adjust_spend_nonneg [OF assms sample_clippedInfl_ge])

lemma riskyCorpus_year_step_nonneg: "0 \<le> riskyCorpus (year_step p yr z1 z2 st)"
  by (simp add: year_step_def Let_def)

lemma grow_safe_nonneg: "0 \<le> s \<Longrightarrow> 0 \<le> grow_safe p s"
  by (simp add: grow_safe_def)

lemma grow_safe_zero: "grow_safe p 0 = 0"
  by (simp add: grow_safe_def)

lemma draw_order_safe_nonneg: "0 \<le> s \<Longrightarrow> 0 \<le> snd (draw_order p yr bad t (r, s))"
  by (simp add: draw_order_def draw_safe_first_def)

lemma draw_order_empty_safe: "draw_order p yr bad t (r, 0) = (r - t, 0)"
  by (simp add: draw_order_def)

lemma safeRemain_year_step_nonneg:
  assumes "0 \<le> safeRemain st"
  shows "0 \<le> safeRemain (year_step p yr z1 z2 st)"
  using assms by (simp add: year_step_def Let_def draw_order_safe_nonneg grow_safe_nonneg)

text \<open>A depleted trial stays depleted as long as the spending level is not negative.\<close>

lemma year_step_depleted:
  assumes "riskyCorpus st = 0" and "safeRemain st = 0"
      and "0 \<le> w_annual (year_step p yr z1 z2 st)"
  shows "riskyCorpus (year_step p yr z1 z2 st) = 0 \<and> safeRemain (year_step p yr z1 z2 st) = 0"
proof -
  let ?w = "w_annual (year_step p yr z1 z2 st)"
  let ?d = "w_disc_adj (year_step p yr z1 z2 st)"
  have "0 \<le> totalW_of ?w ?d" using assms(3) totalW_of_ge [of ?w ?d] by linarith
  then show ?thesis
    using assms(1,2)
    by (simp add: year_step_def Let_def grow_safe_zero draw_order_empty_safe)
qed

section \<open>Facts about one trial\<close>

text \<open>From a depleted state the loop records zeros only, in both variants.\<close>

lemma year_loop_depleted:
  assumes "riskyCorpus st = 0" and "safeRemain st = 0"
      and "0 \<le> w_annual st" and "taper p \<le> 1 \<or> yr \<le> 1" and "nonzero g"
  shows "\<exists>g'. year_loop p yr st g = Some (replicate (nat (years p + 1 - yr)) 0, g')"
proof (cases "yr > years p")
  case True
  then show ?thesis by (simp add: year_loop_done)
next
  case False
  then have le: "yr \<le> years p" by simp
  from nextNormal_total [OF assms(5), of 0 1] obtain z1 g1
    where n1: "nextNormal 0 1 g = Some (z1, g1)" "nonzero g1" by blast
  from nextNormal_total [OF n1(2), of 0 1] obtain z2 g2
    where n2: "nextNormal 0 1 g1 = Some (z2, g2)" "nonzero g2" by blast
  have "0 \<le> w_annual (year_step p yr z1 z2 st)"
    using assms(3,4) w_annual_year_step_nonneg [of st p yr z1 z2]
    by (auto simp: w_annual_year_step adjust_spend_first)
  from year_step_depleted [OF assms(1,2) this]
  have "year_loop p yr st g = Some (0 # replicate (nat (years p - yr)) 0, g2)"
    using year_loop_exit [OF le n1(1) n2(1)] by simp
  moreover have "(0::real) # replicate (nat (years p - yr)) 0 = replicate (nat (years p + 1 - yr)) 0"
  proof -
    have "nat (years p + 1 - yr) = Suc (nat (years p - yr))" using le by simp
    then show ?thesis by simp
  qed
  ultimately show ?thesis by simp
qed

lemma year_loop_continue_depleted:
  assumes "riskyCorpus st = 0" and "safeRemain st = 0"
      and "0 \<le> w_annual st" and "taper p \<le> 1" and "nonzero g"
  shows "\<exists>g'. year_loop_continue p yr st g = Some (replicate (nat (years p + 1 - yr)) 0, g')"
  using assms
proof (induction "nat (years p + 1 - yr)" arbitrary: yr st g)
  case 0
  then have "yr > years p" by simp
  with 0 show ?case by (simp add: year_loop_continue_done)
next
  case (Suc n)
  then have le: "yr \<le> years p" by linarith
  from nextNormal_total [OF Suc.prems(5), of 0 1] obtain z1 g1
    where n1: "nextNormal 0 1 g = Some (z1, g1)" "nonzero g1" by blast
  from nextNormal_total [OF n1(2), of 0 1] obtain z2 g2
    where n2: "nextNormal 0 1 g1 = Some (z2, g2)" "nonzero g2" by blast
  let ?st = "year_step p yr z1 z2 st"
  have w: "0 \<le> w_annual ?st"
    using Suc.prems(3,4) by (rule w_annual_year_step_nonneg)
  from year_step_depleted [OF Suc.prems(1,2) w]
  have d: "riskyCorpus ?st = 0" "safeRemain ?st = 0" by simp_all
  have m: "n = nat (years p + 1 - (yr + 1))" using Suc.hyps(2) by linarith
  from Suc.hyps(1) [OF m d w Suc.prems(4) n2(2)] obtain g3
    where r: "year_loop_continue p (yr + 1) ?st g2
              = Some (replicate (nat (years p + 1 - (yr + 1))) 0, g3)" by blast
  have "nat (years p + 1 - yr) = Suc (nat (years p + 1 - (yr + 1)))" using le by simp
  with year_loop_continue_go [OF le n1(1) n2(1) r] d show ?case by simp
qed

text \<open>With and without the exit a trial records the same values.\<close>

lemma year_loops_agree:
  assumes "0 \<le> w_annual st" and "taper p \<le> 1" and "nonzero g"
  shows "\<exists>vs g1 g2. year_loop p yr st g = Some (vs, g1)
           \<and> year_loop_continue p yr st g = Some (vs, g2)"
  using assms
proof (induction "nat (years p + 1 - yr)" arbitrary: yr st g)
  case 0
  then have "yr > years p" by simp
  then show ?case by (simp add: year_loop_done year_loop_continue_done)
next
  case (Suc n)
  then have le: "yr \<le> years p" by linarith
  from nextNormal_total [OF Suc.prems(3), of 0 1] obtain z1 g1
    where n1: "nextNormal 0 1 g = Some (z1, g1)" "nonzero g1" by blast
  from nextNormal_total [OF n1(2), of 0 1] obtain z2 g2
    where n2: "nextNormal 0 1 g1 = Some (z2, g2)" "nonzero g2" by blast
  let ?st = "year_step p yr z1 z2 st"
  have w: "0 \<le> w_annual ?st"
    using Suc.prems(1,2) by (rule w_annual_year_step_nonneg)
  show ?case
  proof (cases "riskyCorpus ?st = 0 \<and> safeRemain ?st = 0")
    case True
    then have d: "riskyCorpus ?st = 0" "safeRemain ?st = 0" by simp_all
    from year_loop_continue_depleted [OF d w Suc.prems(2) n2(2)] obtain g3
      where r: "year_loop_continue p (yr + 1) ?st g2
                = Some (replicate (nat (years p + 1 - (yr + 1))) 0, g3)" by blast
    have "nat (years p + 1 - (yr + 1)) = nat (years p - yr)" by simp
    with year_loop_continue_go [OF le n1(1) n2(1) r] d
    have "year_loop_continue p yr st g = Some (0 # replicate (nat (years p - yr)) 0, g3)"
      by simp
    moreover have "year_loop p yr st g = Some (0 # replicate (nat (years p - yr)) 0, g2)"
      using year_loop_exit [OF le n1(1) n2(1) d] .
    ultimately show ?thesis by simp
  next
    case False
    have m: "n = nat (years p + 1 - (yr + 1))" using Suc.hyps(2) by linarith
    from Suc.hyps(1) [OF m w Suc.prems(2) n2(2)] obtain vs h1 h2
      where r: "year_loop p (yr + 1) ?st g2 = Some (vs, h1)"
        "year_loop_continue p (yr + 1) ?st g2 = Some (vs, h2)" by blast
    from year_loop_go [OF le n1(1) n2(1) False r(1)]
      year_loop_continue_go [OF le n1(1) n2(1) r(2)]
    show ?thesis by simp
  qed
qed

text \<open>
  Recorded values are never negative, and a year in which the loop records 0 is
  followed by zeros only.
\<close>

lemma year_loop_values:
  assumes "0 \<le> safeRemain st" and "nonzero g"
      and "year_loop p yr st g = Some (vs, g')"
  shows "(\<forall>v\<in>set vs. 0 \<le> v)
       \<and> (\<forall>i j. i < j \<and> j < length vs \<and> vs ! i = 0 \<longrightarrow> vs ! j = 0)"
  using assms
proof (induction "nat (years p + 1 - yr)" arbitrary: yr st g vs g')
  case 0
  then have "yr > years p" by simp
  with 0 show ?case by (simp add: year_loop_done)
next
  case (Suc n)
  then have le: "yr \<le> years p" by linarith
  from nextNormal_total [OF Suc.prems(2), of 0 1] obtain z1 g1
    where n1: "nextNormal 0 1 g = Some (z1, g1)" "nonzero g1" by blast
  from nextNormal_total [OF n1(2), of 0 1] obtain z2 g2
    where n2: "nextNormal 0 1 g1 = Some (z2, g2)" "nonzero g2" by blast
  let ?st = "year_step p yr z1 z2 st"
  have s: "0 \<le> safeRemain ?st" using Suc.prems(1) by (rule safeRemain_year_step_nonneg)
  have r: "0 \<le> riskyCorpus ?st" by (rule riskyCorpus_year_step_nonneg)
  show ?case
  proof (cases "riskyCorpus ?st = 0 \<and> safeRemain ?st = 0")
    case True
    then have "year_loop p yr st g = Some (0 # replicate (nat (years p - yr)) 0, g2)"
      using year_loop_exit [OF le n1(1) n2(1)] by simp
    with Suc.prems(3) have "vs = 0 # replicate (nat (years p - yr)) 0" by simp
    then have "vs = replicate (Suc (nat (years p - yr))) 0" by simp
    then show ?thesis by (simp del: replicate_Suc)
  next
    case False
    have m: "n = nat (years p + 1 - (yr + 1))" using Suc.hyps(2) by linarith
    from year_loop_total [OF n2(2), of p "yr + 1" ?st] obtain ws g3
      where l: "year_loop p (yr + 1) ?st g2 = Some (ws, g3)" by blast
    from Suc.hyps(1) [OF m s n2(2) l]
    have ih: "\<forall>v\<in>set ws. 0 \<le> v"
      "\<forall>i j. i < j \<and> j < length ws \<and> ws ! i = 0 \<longrightarrow> ws ! j = 0" by blast+
    let ?v = "riskyCorpus ?st + safeRemain ?st"
    from year_loop_go [OF le n1(1) n2(1) False l] Suc.prems(3)
    have vs: "vs = ?v # ws" by simp
    have pos: "0 < ?v" using False s r by linarith
    have "\<forall>v\<in>set vs. 0 \<le> v" using vs ih(1) pos by simp
    moreover have "vs ! j = 0" if "i < j" "j < length vs" "vs ! i = 0" for i j
    proof (cases i)
      case 0
      with that(3) vs pos show ?thesis by simp
    next
      case (Suc k)
      with that(1) obtain l where j: "j = Suc l" "k < l" by (cases j) auto
      with that Suc vs ih(2) show ?thesis by auto
    qed
    ultimately show ?thesis by blast
  qed
qed

section \<open>Facts about the whole run\<close>

lemma collect_year_results:
  "0 \<le> sims p \<Longrightarrow> collect (map (year_result p cols) ys) = Inr (map (year_summary p cols) ys)"
  by (induction ys) (simp_all add: year_result_def)

lemma collect_Inl: "collect xs = Inl e \<Longrightarrow> Inl e \<in> set xs"
  by (induction xs) (auto split: sum.splits)

lemma sim_loop_returns:
  "\<exists>cols g'. sim_loop p (nat (sims p)) (SeededRandom (randomSeed p)) = Some (cols, g')
     \<and> length cols = nat (sims p)"
  using sim_loop_total [OF SeededRandom_nonzero, of p "nat (sims p)" "randomSeed p"] by blast

lemma runMonteCarlo_returns:
  assumes "0 \<le> sims p" and "- 1 \<le> years p"
  shows "\<exists>cols g'. sim_loop p (nat (sims p)) (SeededRandom (randomSeed p)) = Some (cols, g')
          \<and> length cols = nat (sims p)
          \<and> runMonteCarlo p = Some (Inr (map (year_summary p cols) [0..years p]))"
proof -
  from sim_loop_returns [of p] obtain cols g'
    where s: "sim_loop p (nat (sims p)) (SeededRandom (randomSeed p)) = Some (cols, g')"
      "length cols = nat (sims p)" by blast
  have "0 \<le> (years p + 1) * sims p" using assms by simp
  then have "\<not> (years p + 1) * sims p < 0" by simp
  then have "runMonteCarlo p = Some (collect (map (year_result p cols) [0..years p]))"
    using s(1) by (simp add: runMonteCarlo_def)
  with s assms(1) show ?thesis by (simp add: collect_year_results)
qed

lemma sim_loop_columns:
  assumes "sim_loop p (nat (sims p)) (SeededRandom (randomSeed p)) = Some (cols, g')"
      and "col \<in> set cols"
  shows "\<exists>h h' vs. nonzero h \<and> year_loop p 1 (initial_state p) h = Some (vs, h')
           \<and> col = (riskyCorpus (initial_state p) + safeRemain (initial_state p)) # vs
           \<and> length vs = nat (years p)"
proof -
  from sim_loop_cols [OF assms(1) SeededRandom_nonzero assms(2)] obtain h h'
    where h: "nonzero h" "trial p h = Some (col, h')" by blast
  from trial_total [OF h(1), of p] h(2) show ?thesis using h(1) by auto
qed

subsection \<open>Percentile indices\<close>

lemma percentile_indices:
  assumes "1 \<le> n"
  shows "0 \<le> \<lfloor>0.10 * real_of_int n\<rfloor>"
    and "\<lfloor>0.10 * real_of_int n\<rfloor> \<le> \<lfloor>0.50 * real_of_int n\<rfloor>"
    and "\<lfloor>0.50 * real_of_int n\<rfloor> \<le> \<lfloor>0.90 * real_of_int n\<rfloor>"
    and "\<lfloor>0.90 * real_of_int n\<rfloor> < n"
proof -
  have n: "0 < real_of_int n" using assms by simp
  show "0 \<le> \<lfloor>0.10 * real_of_int n\<rfloor>" using n by simp
  show "\<lfloor>0.10 * real_of_int n\<rfloor> \<le> \<lfloor>0.50 * real_of_int n\<rfloor>"
    by (rule floor_mono) (use n in simp)
  show "\<lfloor>0.50 * real_of_int n\<rfloor> \<le> \<lfloor>0.90 * real_of_int n\<rfloor>"
    by (rule floor_mono) (use n in simp)
  have "0.90 * real_of_int n < real_of_int n" using n by simp
  then show "\<lfloor>0.90 * real_of_int n\<rfloor> < n" by (simp add: floor_less_iff)
qed

lemma at_index_sort:
  assumes "0 \<le> i" and "i < int (length xs)"
  shows "at_index (sort xs) i = Num (sort xs ! nat i)"
  using assms by (simp add: at_index_def)

lemma success_count_sort:
  "length (filter P (sort xs)) = length (filter P (xs::real list))"
  by (simp add: filter_sort)

section \<open>Percentiles and success rate of a year\<close>

lemma year_summary_spec:
  assumes "1 \<le> sims p" and "length cols = nat (sims p)"
  shows "year_summary p cols yr = spec_YearResult yr (map (\<lambda>col. col ! nat yr) cols) (sims p)"
proof -
  let ?vals = "map (\<lambda>col. col ! nat yr) cols"
  have len: "int (length (sort ?vals)) = sims p" using assms by simp
  note ix = percentile_indices [OF assms(1)]
  have a: "at_index (sort ?vals) \<lfloor>0.10 * real_of_int (sims p)\<rfloor>
           = Num (spec_percentile ?vals 0.10 (sims p))"
    unfolding spec_percentile_def
    by (rule at_index_sort) (use ix len in simp_all)
  have b: "at_index (sort ?vals) \<lfloor>0.50 * real_of_int (sims p)\<rfloor>
           = Num (spec_percentile ?vals 0.50 (sims p))"
    unfolding spec_percentile_def
    by (rule at_index_sort) (use ix len in simp_all)
  have c: "at_index (sort ?vals) \<lfloor>0.90 * real_of_int (sims p)\<rfloor>
           = Num (spec_percentile ?vals 0.90 (sims p))"
    unfolding spec_percentile_def
    by (rule at_index_sort) (use ix len in simp_all)
  have "length (filter (\<lambda>v. v > 1) (sort ?vals)) = length (filter (\<lambda>v. v > 1) ?vals)"
    by (rule success_count_sort)
  also have "\<dots> = card {i. i < length ?vals \<and> ?vals ! i > 1}"
    by (rule length_filter_conv_card)
  finally have d: "success_pct (length (filter (\<lambda>v. v > 1) (sort ?vals))) (sims p)
                = Num (spec_successRate ?vals (sims p))"
    using assms(1) by (simp add: success_pct_def spec_successRate_def)
  show ?thesis
    unfolding year_summary_def Let_def spec_YearResult_def
    by (simp only: a b c d)
qed

text \<open>
  C3. For every year \<open>0 .. years\<close> the returned YearResult is the one the specification
  describes, computed from that year's per-trial values: the sorted values at indices
  \<open>floor (0.10 * sims)\<close>, \<open>floor (0.50 * sims)\<close>, \<open>floor (0.90 * sims)\<close>, and 100 times
  the fraction of trials whose value is strictly greater than 1.
\<close>

theorem year_results_are_nearest_rank:
  assumes "1 \<le> sims p" and "0 \<le> years p"
  shows "\<exists>cols g'.
           sim_loop p (nat (sims p)) (SeededRandom (randomSeed p)) = Some (cols, g')
         \<and> runMonteCarlo p =
             Some (Inr (map (\<lambda>yr. spec_YearResult yr (map (\<lambda>col. col ! nat yr) cols) (sims p))
                            [0..years p]))"
proof -
  from runMonteCarlo_returns [of p] assms obtain cols g'
    where r: "sim_loop p (nat (sims p)) (SeededRandom (randomSeed p)) = Some (cols, g')"
      "length cols = nat (sims p)"
      "runMonteCarlo p = Some (Inr (map (year_summary p cols) [0..years p]))" by auto
  have "map (year_summary p cols) [0..years p]
        = map (\<lambda>yr. spec_YearResult yr (map (\<lambda>col. col ! nat yr) cols) (sims p)) [0..years p]"
    by (rule map_cong) (simp_all add: year_summary_spec [OF assms(1) r(2)])
  with r show ?thesis by auto
qed

theorem year_results_are_nearest_rank_witness:
  "1 \<le> sims DEFAULT_PARAMS \<and> 0 \<le> years DEFAULT_PARAMS \<and>
   (\<exists>cols g'.
      sim_loop DEFAULT_PARAMS 100000 (SeededRandom (Some 12345)) = Some (cols, g')
    \<and> runMonteCarlo DEFAULT_PARAMS =
        Some (Inr (map (\<lambda>yr. spec_YearResult yr (map (\<lambda>col. col ! nat yr) cols) 100000)
                       [0..40])))"
  using year_results_are_nearest_rank [of DEFAULT_PARAMS]
  by (simp add: DEFAULT_PARAMS_def)

text \<open>
  C6. Monotone percentiles: with at least one trial and a non-negative horizon, every
  YearResult of the returned sequence (years \<open>0 .. years\<close>) has p10 \<le> p50 \<le> p90.
\<close>

theorem percentiles_are_monotone:
  assumes "1 \<le> sims p" and "0 \<le> years p"
  shows "\<exists>rs. runMonteCarlo p = Some (Inr rs) \<and> length rs = nat (years p + 1)
         \<and> (\<forall>r\<in>set rs. \<exists>a b c. p10 r = Num a \<and> p50 r = Num b \<and> p90 r = Num c
                            \<and> a \<le> b \<and> b \<le> c)"
proof -
  from runMonteCarlo_returns [of p] assms obtain cols g'
    where r: "length cols = nat (sims p)"
      "runMonteCarlo p = Some (Inr (map (year_summary p cols) [0..years p]))" by auto
  have "\<exists>a b c. p10 (year_summary p cols yr) = Num a \<and> p50 (year_summary p cols yr) = Num b
          \<and> p90 (year_summary p cols yr) = Num c \<and> a \<le> b \<and> b \<le> c" for yr
  proof -
    let ?ys = "sort (map (\<lambda>col. col ! nat yr) cols)"
    note ix = percentile_indices [OF assms(1)]
    have len: "int (length ?ys) = sims p" using assms r(1) by simp
    have s: "sorted ?ys" by simp
    have i3: "nat \<lfloor>0.90 * real_of_int (sims p)\<rfloor> < length ?ys" using ix len by linarith
    have i2: "nat \<lfloor>0.50 * real_of_int (sims p)\<rfloor> \<le> nat \<lfloor>0.90 * real_of_int (sims p)\<rfloor>"
      using ix by linarith
    have i1: "nat \<lfloor>0.10 * real_of_int (sims p)\<rfloor> \<le> nat \<lfloor>0.50 * real_of_int (sims p)\<rfloor>"
      using ix by linarith
    have "?ys ! nat \<lfloor>0.10 * real_of_int (sims p)\<rfloor> \<le> ?ys ! nat \<lfloor>0.50 * real_of_int (sims p)\<rfloor>"
      using s i1 i2 i3 by (intro sorted_nth_mono) linarith+
    moreover have "?ys ! nat \<lfloor>0.50 * real_of_int (sims p)\<rfloor> \<le> ?ys ! nat \<lfloor>0.90 * real_of_int (sims p)\<rfloor>"
      using s i2 i3 by (intro sorted_nth_mono) linarith+
    ultimately show ?thesis
      using year_summary_spec [OF assms(1) r(1), of yr]
      by (simp add: spec_YearResult_def spec_percentile_def)
  qed
  moreover have "length (map (year_summary p cols) [0..years p]) = nat (years p + 1)"
    by simp
  ultimately show ?thesis using r(2) by auto
qed

theorem percentiles_are_monotone_witness:
  "1 \<le> sims DEFAULT_PARAMS \<and> 0 \<le> years DEFAULT_PARAMS \<and>
   (\<exists>rs. runMonteCarlo DEFAULT_PARAMS = Some (Inr rs) \<and> length rs = 41
      \<and> (\<forall>r\<in>set rs. \<exists>a b c. p10 r = Num a \<and> p50 r = Num b \<and> p90 r = Num c
                            \<and> a \<le> b \<and> b \<le> c))"
  using percentiles_are_monotone [of DEFAULT_PARAMS]
  by (simp add: DEFAULT_PARAMS_def)

section \<open>Sorting equal values\<close>


section \<open>Depletion\<close>

text \<open>
  C5. Depletion is terminal: for a configuration with non-negative startCorpus, w0 and
  safeBucketYears (non-negative discretionarySpend and cutPct \<le> 1 are not needed),
  every value a trial records is \<ge> 0, and once the
  recorded value is 0 in some year it is 0 in every later year up to the horizon.
\<close>

theorem depletion_is_terminal:
  assumes "0 \<le> startCorpus p" and "0 \<le> w0 p" and "0 \<le> safeBucketYears p"
  shows "\<exists>cols g'.
           sim_loop p (nat (sims p)) (SeededRandom (randomSeed p)) = Some (cols, g')
         \<and> length cols = nat (sims p)
         \<and> (\<forall>col\<in>set cols.
               length col = nat (years p) + 1
             \<and> (\<forall>v\<in>set col. 0 \<le> v)
             \<and> (\<forall>i j. i < j \<and> j < length col \<and> col ! i = 0 \<longrightarrow> col ! j = 0))"
proof -
  from sim_loop_returns [of p] obtain cols g'
    where r: "sim_loop p (nat (sims p)) (SeededRandom (randomSeed p)) = Some (cols, g')"
      "length cols = nat (sims p)" by blast
  let ?st = "initial_state p"
  have safe0: "0 \<le> safeRemain ?st" using assms by (simp add: initial_state_def Let_def)
  have risky0: "0 \<le> riskyCorpus ?st" by (simp add: initial_state_def Let_def)
  have w: "0 \<le> w_annual ?st" using assms by (simp add: initial_state_def Let_def)
  have "length col = nat (years p) + 1 \<and> (\<forall>v\<in>set col. 0 \<le> v)
        \<and> (\<forall>i j. i < j \<and> j < length col \<and> col ! i = 0 \<longrightarrow> col ! j = 0)"
    if "col \<in> set cols" for col
  proof -
    from sim_loop_columns [OF r(1) that] obtain h h' vs
      where c: "nonzero h" "year_loop p 1 ?st h = Some (vs, h')"
        "col = (riskyCorpus ?st + safeRemain ?st) # vs" "length vs = nat (years p)" by blast
    from year_loop_values [OF safe0 c(1,2)]
    have v: "\<forall>v\<in>set vs. 0 \<le> v"
      "\<forall>i j. i < j \<and> j < length vs \<and> vs ! i = 0 \<longrightarrow> vs ! j = 0" by blast+
    have "\<forall>v\<in>set col. 0 \<le> v" using c(3) v(1) safe0 risky0 by simp
    moreover have "col ! j = 0" if "i < j" "j < length col" "col ! i = 0" for i j
    proof (cases i)
      case 0
      with that(3) c(3) have "riskyCorpus ?st + safeRemain ?st = 0" by simp
      with safe0 risky0 have d: "riskyCorpus ?st = 0" "safeRemain ?st = 0" by linarith+
      from year_loop_depleted [where yr = 1 and p = p, OF d w _ c(1)] c(2)
      have "vs = replicate (nat (years p + 1 - 1)) 0" by auto
      with that(1,2) 0 c(3) show ?thesis by (cases j) auto
    next
      case (Suc k)
      with that(1) obtain l where j: "j = Suc l" "k < l" by (cases j) auto
      with that Suc c(3) v(2) show ?thesis by auto
    qed
    ultimately show ?thesis using c(3,4) by auto
  qed
  with r show ?thesis by blast
qed

theorem depletion_is_terminal_witness:
  "0 \<le> startCorpus DEFAULT_PARAMS \<and> 0 \<le> w0 DEFAULT_PARAMS \<and> 0 \<le> safeBucketYears DEFAULT_PARAMS \<and>
   (\<exists>cols g'.
      sim_loop DEFAULT_PARAMS 100000 (SeededRandom (Some 12345)) = Some (cols, g')
    \<and> length cols = 100000
    \<and> (\<forall>col\<in>set cols.
          length col = 41
        \<and> (\<forall>v\<in>set col. 0 \<le> v)
        \<and> (\<forall>i j. i < j \<and> j < length col \<and> col ! i = 0 \<longrightarrow> col ! j = 0)))"
  using depletion_is_terminal [of DEFAULT_PARAMS]
  by (simp add: DEFAULT_PARAMS_def)

section \<open>The reserve outside its policy window\<close>

text \<open>
  C10. Outside its policy window the safe reserve is never drawn down: in
  loss-year-only mode in a year whose return is \<ge> 0, and in first-N-years mode in any
  year after safeBucketYears, the reserve only compounds and the whole withdrawal is
  subtracted from the risky corpus, which is clamped at 0. When the risky corpus is
  smaller than the withdrawal the shortfall is not taken from the reserve: the total
  value is then the compounded reserve alone.
\<close>

theorem reserve_untouched_outside_window:
  assumes "(\<not> useFirstNYearsReserve p \<and> 0 \<le> sample_r p z1)
         \<or> (useFirstNYearsReserve p \<and> safeBucketYears p < real_of_int yr)"
  shows "safeRemain (year_step p yr z1 z2 st) = grow_safe p (safeRemain st)
       \<and> riskyCorpus (year_step p yr z1 z2 st) =
           max 0 (riskyCorpus st * (1 + sample_r p z1)
                  - totalW_of (w_annual (year_step p yr z1 z2 st)) (w_disc_adj (year_step p yr z1 z2 st)))
       \<and> (riskyCorpus st * (1 + sample_r p z1)
            < totalW_of (w_annual (year_step p yr z1 z2 st)) (w_disc_adj (year_step p yr z1 z2 st))
          \<longrightarrow> riskyCorpus (year_step p yr z1 z2 st) + safeRemain (year_step p yr z1 z2 st)
              = grow_safe p (safeRemain st))"
  using assms by (auto simp add: year_step_def Let_def draw_order_def)

theorem reserve_untouched_outside_window_witness:
  "\<not> useFirstNYearsReserve loss_year_only_params \<and> 0 \<le> sample_r loss_year_only_params 0
   \<and> riskyCorpus late_state * (1 + sample_r loss_year_only_params 0) < 50
   \<and> riskyCorpus (year_step loss_year_only_params 1 0 0 late_state) = 0
   \<and> safeRemain (year_step loss_year_only_params 1 0 0 late_state) = 105.5
   \<and> riskyCorpus (year_step loss_year_only_params 1 0 0 late_state)
      + safeRemain (year_step loss_year_only_params 1 0 0 late_state) = 105.5"
proof -
  have h: "\<not> useFirstNYearsReserve loss_year_only_params" "0 \<le> sample_r loss_year_only_params 0"
    by (simp_all add: loss_year_only_params_def DEFAULT_PARAMS_def sample_r_def)
  have w: "w_annual (year_step loss_year_only_params 1 0 0 late_state) = 50"
    "w_disc_adj (year_step loss_year_only_params 1 0 0 late_state) = 0"
    by (simp_all add: year_step_def Let_def adjust_spend_def cut_disc_def late_state_def
        loss_year_only_params_def DEFAULT_PARAMS_def sample_r_def)
  have g: "grow_safe loss_year_only_params (safeRemain late_state) = 105.5"
    by (simp add: grow_safe_def late_state_def loss_year_only_params_def DEFAULT_PARAMS_def)
  have r: "riskyCorpus late_state * (1 + sample_r loss_year_only_params 0) = 11.1"
    by (simp add: late_state_def loss_year_only_params_def DEFAULT_PARAMS_def sample_r_def)
  from reserve_untouched_outside_window [of loss_year_only_params 0 1 0 late_state] h
  show ?thesis by (simp add: w g r totalW_of_def)
qed

section \<open>nextNormal\<close>

text \<open>
  C8. nextNormal rejects every uniform draw equal to 0 before the Box-Muller transform:
  from every generator state, a value the rejection loop hands over lies in (0, 1), so
  the logarithm is taken of a value in (0, 1) only, and a value nextNormal returns lies
  within 8 * |std| of mean. From every state a generator can be in (the constructor and
  next() never produce the all-zero state) nextNormal does return.
\<close>

theorem nextNormal_avoids_singularity:
  "(\<forall>u g1. next_nonzero g = Some (u, g1) \<longrightarrow> 0 < u \<and> u < 1)
 \<and> (\<forall>x g'. nextNormal mean std g = Some (x, g') \<longrightarrow>
       (\<exists>u v g1. next_nonzero g = Some (u, g1) \<and> next_nonzero g1 = Some (v, g')
          \<and> 0 < u \<and> u < 1 \<and> 0 < v \<and> v < 1
          \<and> x = sqrt (- 2 * ln u) * cos (2 * pi * v) * std + mean)
       \<and> \<bar>x - mean\<bar> \<le> 8 * \<bar>std\<bar>)
 \<and> (nonzero g \<longrightarrow> (\<exists>x g'. nextNormal mean std g = Some (x, g') \<and> nonzero g'))
 \<and> nonzero (SeededRandom seed)
 \<and> (nonzero g \<longrightarrow> nonzero (snd (rng_next g)))"
proof -
  have rng: "0 < u \<and> u < 1 \<and> 1 / 4294967296 \<le> u" if "next_nonzero h = Some (u, h1)" for h u h1
    using next_nonzero_range [OF that] by simp
  have a: "\<forall>u g1. next_nonzero g = Some (u, g1) \<longrightarrow> 0 < u \<and> u < 1"
    using rng by blast
  have b: "(\<exists>u v g1. next_nonzero g = Some (u, g1) \<and> next_nonzero g1 = Some (v, g')
          \<and> 0 < u \<and> u < 1 \<and> 0 < v \<and> v < 1
          \<and> x = sqrt (- 2 * ln u) * cos (2 * pi * v) * std + mean)
       \<and> \<bar>x - mean\<bar> \<le> 8 * \<bar>std\<bar>"
    if n: "nextNormal mean std g = Some (x, g')" for x g'
  proof -
    from n obtain u g1 v
      where d: "next_nonzero g = Some (u, g1)" "next_nonzero g1 = Some (v, g')"
        "x = sqrt (- 2 * ln u) * cos (2 * pi * v) * std + mean"
      by (auto simp: nextNormal_def split: option.splits)
    from rng [OF d(1)] have u: "0 < u" "u < 1" "1 / 4294967296 \<le> u" by simp_all
    from rng [OF d(2)] have v: "0 < v" "v < 1" by simp_all
    from box_muller_bound [OF u(3,2), of v std] d(3)
    have "\<bar>x - mean\<bar> \<le> 8 * \<bar>std\<bar>" by simp
    with d u v show ?thesis by blast
  qed
  have c: "nonzero g \<longrightarrow> (\<exists>x g'. nextNormal mean std g = Some (x, g') \<and> nonzero g')"
    using nextNormal_total by blast
  have e: "nonzero g \<longrightarrow> nonzero (snd (rng_next g))"
    using next_state_nonzero by (simp add: rng_next_eq)
  from a b c e SeededRandom_nonzero show ?thesis by blast
qed

theorem nextNormal_avoids_singularity_witness:
  "nonzero (SeededRandom None)
   \<and> (\<exists>x g'. nextNormal 0 1 (SeededRandom None) = Some (x, g') \<and> nonzero g' \<and> \<bar>x\<bar> \<le> 8)"
proof -
  note t = nextNormal_avoids_singularity [of "SeededRandom None" 0 1 None]
  from t have nz: "nonzero (SeededRandom None)" by blast
  with t obtain x g' where n: "nextNormal 0 1 (SeededRandom None) = Some (x, g')" "nonzero g'"
    by blast
  with t have "\<bar>x - 0\<bar> \<le> 8 * \<bar>1::real\<bar>" by blast
  with nz n show ?thesis by auto
qed

section \<open>The seed\<close>

text \<open>Only the constructor of the generator reads the seed.\<close>

lemma year_step_seed: "year_step (p\<lparr>randomSeed := s\<rparr>) yr z1 z2 st = year_step p yr z1 z2 st"
proof -
  have "sample_r (p\<lparr>randomSeed := s\<rparr>) = sample_r p"
    by (rule ext) (simp add: sample_r_def)
  moreover have "sample_clippedInfl (p\<lparr>randomSeed := s\<rparr>) = sample_clippedInfl p"
    by (intro ext) (simp add: sample_clippedInfl_def)
  moreover have "grow_safe (p\<lparr>randomSeed := s\<rparr>) = grow_safe p"
    by (rule ext) (simp add: grow_safe_def)
  moreover have "adjust_spend (p\<lparr>randomSeed := s\<rparr>) = adjust_spend p"
    by (intro ext) (simp add: adjust_spend_def)
  moreover have "cut_disc (p\<lparr>randomSeed := s\<rparr>) = cut_disc p"
    by (intro ext) (simp add: cut_disc_def)
  moreover have "draw_order (p\<lparr>randomSeed := s\<rparr>) = draw_order p"
    by (intro ext) (simp add: draw_order_def cong: prod.case_cong if_cong)
  ultimately show ?thesis by (simp only: year_step_def)
qed

lemma year_loop_seed: "year_loop (p\<lparr>randomSeed := s\<rparr>) yr st g = year_loop p yr st g"
proof (induction "nat (years p + 1 - yr)" arbitrary: yr st g)
  case 0
  then have "yr > years p" by simp
  then show ?case by (simp add: year_loop_done)
next
  case (Suc n)
  have ih: "year_loop (p\<lparr>randomSeed := s\<rparr>) (yr + 1) st' h = year_loop p (yr + 1) st' h" for st' h
    using Suc.hyps(2) by (intro Suc.hyps(1)) linarith
  show ?case
    unfolding year_loop.simps [of p yr st g] year_loop.simps [of "p\<lparr>randomSeed := s\<rparr>" yr st g]
    by (simp add: ih year_step_seed Let_def cong: option.case_cong prod.case_cong if_cong)
qed

lemma initial_state_seed: "initial_state (p\<lparr>randomSeed := s\<rparr>) = initial_state p"
  by (simp add: initial_state_def Let_def cong: if_cong)

lemma trial_seed: "trial (p\<lparr>randomSeed := s\<rparr>) g = trial p g"
  by (simp add: trial_def initial_state_seed year_loop_seed)

lemma sim_loop_seed: "sim_loop (p\<lparr>randomSeed := s\<rparr>) n g = sim_loop p n g"
  by (induction n arbitrary: g) (simp_all add: trial_seed split: option.splits prod.splits)

lemma year_result_seed: "year_result (p\<lparr>randomSeed := s\<rparr>) cols = year_result p cols"
  by (rule ext) (simp add: year_result_def year_summary_def)

lemma runMonteCarlo_seed:
  assumes "SeededRandom a = SeededRandom b"
  shows "runMonteCarlo (p\<lparr>randomSeed := a\<rparr>) = runMonteCarlo (p\<lparr>randomSeed := b\<rparr>)"
  using assms by (simp add: runMonteCarlo_def sim_loop_seed year_result_seed split: option.splits prod.splits)

section \<open>Invalid configurations\<close>

text \<open>
  C2 states that runMonteCarlo rejects a non-positive trial count with an
  InvalidConfiguration condition instead of returning NaN. With no trials it returns,
  and every success rate is NaN and every percentile undefined.
\<close>

theorem no_trials_returns_NaN:
  "runMonteCarlo no_trials_params =
     Some (Inr [\<lparr>year = 0, p10 = Undefined, p50 = Undefined, p90 = Undefined, successRate = NaN\<rparr>,
                \<lparr>year = 1, p10 = Undefined, p50 = Undefined, p90 = Undefined, successRate = NaN\<rparr>])"
proof -
  have "[0..years no_trials_params] = [0, 1]"
    by (simp add: no_trials_params_def DEFAULT_PARAMS_def upto_rec1)
  then show ?thesis
    by (simp add: runMonteCarlo_def no_trials_params_def DEFAULT_PARAMS_def year_result_def
        year_summary_def at_index_def success_pct_def)
qed

text \<open>
  C2, as the code has it. runMonteCarlo has no InvalidConfiguration condition and does
  not reject a zero trial count: with sims = 0 and a horizon 0 \<le> years < \<open>2^32 - 1\<close> (an
  Array holds at most \<open>2^32 - 1\<close> elements) it returns one YearResult per year
  0 .. years, each with undefined percentiles and a NaN success rate. When the buffer
  length (years + 1) * sims is negative the call fails with the RangeError of the
  typed-array allocation.
\<close>

theorem zero_trials_are_not_rejected:
  "((years p + 1) * sims p < 0 \<longrightarrow> runMonteCarlo p = Some (Inl RangeError))
 \<and> (sims p = 0 \<and> 0 \<le> years p \<and> years p < 2 ^ 32 - 1 \<longrightarrow>
       runMonteCarlo p =
         Some (Inr (map (\<lambda>yr. \<lparr>year = yr, p10 = Undefined, p50 = Undefined, p90 = Undefined,
                                 successRate = NaN\<rparr>) [0..years p])))"
proof -
  have c: "runMonteCarlo p =
         Some (Inr (map (\<lambda>yr. \<lparr>year = yr, p10 = Undefined, p50 = Undefined, p90 = Undefined,
                                 successRate = NaN\<rparr>) [0..years p]))"
    if z: "sims p = 0" "0 \<le> years p"
  proof -
    from runMonteCarlo_returns [of p] z obtain cols g'
      where s: "length cols = nat (sims p)"
        "runMonteCarlo p = Some (Inr (map (year_summary p cols) [0..years p]))" by auto
    from z s have "cols = []" by simp
    then have "year_summary p cols yr =
        \<lparr>year = yr, p10 = Undefined, p50 = Undefined, p90 = Undefined, successRate = NaN\<rparr>" for yr
      using z(1) by (simp add: year_summary_def at_index_def success_pct_def)
    then have "map (year_summary p cols) [0..years p]
        = map (\<lambda>yr. \<lparr>year = yr, p10 = Undefined, p50 = Undefined, p90 = Undefined,
                      successRate = NaN\<rparr>) [0..years p]"
      by simp
    with s(2) show ?thesis by simp
  qed
  have "(years p + 1) * sims p < 0 \<longrightarrow> runMonteCarlo p = Some (Inl RangeError)"
    by (simp add: runMonteCarlo_def)
  with c show ?thesis by blast
qed

theorem zero_trials_are_not_rejected_witness:
  "(years negative_trials_params + 1) * sims negative_trials_params < 0
   \<and> runMonteCarlo negative_trials_params = Some (Inl RangeError)
   \<and> sims no_trials_params = 0 \<and> 0 \<le> years no_trials_params
   \<and> years no_trials_params < 2 ^ 32 - 1
   \<and> runMonteCarlo no_trials_params =
         Some (Inr (map (\<lambda>yr. \<lparr>year = yr, p10 = Undefined, p50 = Undefined, p90 = Undefined,
                                 successRate = NaN\<rparr>) [0..1]))"
proof -
  have h: "sims no_trials_params = 0" "0 \<le> years no_trials_params"
    "years no_trials_params < 2 ^ 32 - 1" "years no_trials_params = 1"
    by (simp_all add: no_trials_params_def DEFAULT_PARAMS_def)
  have n: "(years negative_trials_params + 1) * sims negative_trials_params < 0"
    by (simp add: negative_trials_params_def DEFAULT_PARAMS_def)
  from zero_trials_are_not_rejected [of no_trials_params]
    zero_trials_are_not_rejected [of negative_trials_params] h n
  show ?thesis by auto
qed

section \<open>Evaluating the generator\<close>

lemma f64_exp_small: "a < 9007199254740992 \<Longrightarrow> f64_exp a = 0"
  by (subst f64_exp.simps) simp

lemma f64_exp_large: "\<not> a < 9007199254740992 \<Longrightarrow> f64_exp a = Suc (f64_exp (a div 2))"
  by (subst f64_exp.simps) simp

text \<open>Integers up to \<open>2^53\<close> in magnitude are float64 values.\<close>

lemma f64_of_int_exact:
  assumes "\<bar>n\<bar> \<le> 9007199254740992"
  shows "f64_of_int n = n"
proof (cases "\<bar>n\<bar> < 9007199254740992")
  case True
  then have "f64_exp (nat \<bar>n\<bar>) = 0" by (intro f64_exp_small) linarith
  then show ?thesis by (simp add: f64_of_int_def Let_def mult_sgn_abs)
next
  case False
  with assms have n: "\<bar>n\<bar> = 9007199254740992" by simp
  then have a: "nat \<bar>n\<bar> = 9007199254740992" by simp
  have "f64_exp 9007199254740992 = Suc 0"
    by (simp add: f64_exp_large f64_exp_small)
  with a have "f64_of_int n = sgn n * 9007199254740992"
    by (simp add: f64_of_int_def Let_def)
  moreover from n have "n = 9007199254740992 \<or> n = - 9007199254740992" by linarith
  ultimately show ?thesis by auto
qed

subsection \<open>The sign of a standard normal draw\<close>

lemma cos_2pi_neg:
  assumes "1 / 4 < v" and "v < 3 / 4"
  shows "cos (2 * pi * v) < 0"
proof -
  have "- (pi / 2) < 2 * pi * v - pi" using assms pi_gt_zero by (simp add: field_simps)
  moreover have "2 * pi * v - pi < pi / 2" using assms pi_gt_zero by (simp add: field_simps)
  ultimately have "0 < cos (2 * pi * v - pi)" by (rule cos_gt_zero_pi)
  then show ?thesis by simp
qed

lemma cos_2pi_pos:
  assumes "(0 \<le> v \<and> v < 1 / 4) \<or> (3 / 4 < v \<and> v \<le> 1)"
  shows "0 < cos (2 * pi * v)"
  using assms
proof
  assume a: "0 \<le> v \<and> v < 1 / 4"
  have "- (pi / 2) < 2 * pi * v"
  proof -
    have "0 \<le> 2 * pi * v" using a pi_gt_zero by simp
    with pi_gt_zero show ?thesis by linarith
  qed
  moreover have "2 * pi * v < pi / 2" using a pi_gt_zero by (simp add: field_simps)
  ultimately show ?thesis by (rule cos_gt_zero_pi)
next
  assume a: "3 / 4 < v \<and> v \<le> 1"
  have "- (pi / 2) < 2 * pi * v - 2 * pi" using a pi_gt_zero by (simp add: field_simps)
  moreover have "2 * pi * v - 2 * pi < pi / 2"
  proof -
    have "2 * pi * v \<le> 2 * pi" using a pi_gt_zero by simp
    with pi_gt_zero show ?thesis by linarith
  qed
  ultimately have "0 < cos (2 * pi * v - 2 * pi)" by (rule cos_gt_zero_pi)
  moreover have "cos (2 * pi * v - 2 * pi) = cos (2 * pi * v)"
    using cos_periodic [of "2 * pi * v - 2 * pi"] by simp
  ultimately show ?thesis by simp
qed

lemma sqrt_log_pos:
  assumes "0 < u" and "u < 1"
  shows "0 < sqrt (- 2 * ln u)"
  using assms ln_less_zero [of u] by simp

text \<open>
  nextNormal at a state whose next two draws are both accepted: the first is \<open>u\<close>, the
  second is \<open>v\<close>, and the sign of the result is the sign of \<open>cos (2 * pi * v)\<close>.
\<close>

lemma nextNormal_two_draws:
  assumes "out_word g \<noteq> 0" and "out_word (next_state g) \<noteq> 0"
  shows "nextNormal mean std g =
           Some (sqrt (- 2 * ln (fst (rng_next g))) * cos (2 * pi * fst (rng_next (next_state g))) * std + mean,
                 next_state (next_state g))"
proof -
  have "next_nonzero g = Some (fst (rng_next g), next_state g)"
    using next_nonzero_hit [OF assms(1)] by (simp add: rng_next_eq)
  moreover have "next_nonzero (next_state g)
                 = Some (fst (rng_next (next_state g)), next_state (next_state g))"
    using next_nonzero_hit [OF assms(2)] by (simp add: rng_next_eq)
  ultimately show ?thesis by (simp add: nextNormal_def)
qed

lemma nextNormal_negative:
  assumes "out_word g \<noteq> 0"
      and "1073741824 < unat (out_word (next_state g))"
      and "unat (out_word (next_state g)) < 3221225472"
  shows "\<exists>z. nextNormal 0 1 g = Some (z, next_state (next_state g)) \<and> z < 0"
proof -
  let ?u = "fst (rng_next g)" and ?v = "fst (rng_next (next_state g))"
  have nz: "out_word (next_state g) \<noteq> 0" using assms(2) by auto
  have u: "0 < ?u" "?u < 1" using rng_next_range [OF assms(1)] by simp_all
  have v: "?v = real (unat (out_word (next_state g))) / 4294967296"
    by (simp only: rng_next_eq fst_conv)
  have "1073741824 < real (unat (out_word (next_state g)))"
    "real (unat (out_word (next_state g))) < 3221225472"
    using assms(2,3) by linarith+
  then have "1 / 4 < ?v" "?v < 3 / 4" unfolding v by (simp_all only: less_divide_eq divide_less_eq) simp_all
  then have "cos (2 * pi * ?v) < 0" by (rule cos_2pi_neg)
  with sqrt_log_pos [OF u] have "sqrt (- 2 * ln ?u) * cos (2 * pi * ?v) < 0"
    by (simp add: mult_pos_neg)
  then show ?thesis
    using nextNormal_two_draws [OF assms(1) nz, of 0 1] by simp
qed

lemma nextNormal_positive:
  assumes "out_word g \<noteq> 0" and "out_word (next_state g) \<noteq> 0"
      and "unat (out_word (next_state g)) < 1073741824
           \<or> 3221225472 < unat (out_word (next_state g))"
  shows "\<exists>z. nextNormal 0 1 g = Some (z, next_state (next_state g)) \<and> 0 < z"
proof -
  let ?u = "fst (rng_next g)" and ?v = "fst (rng_next (next_state g))"
  have u: "0 < ?u" "?u < 1" using rng_next_range [OF assms(1)] by simp_all
  have v: "?v = real (unat (out_word (next_state g))) / 4294967296"
    by (simp only: rng_next_eq fst_conv)
  have r: "0 \<le> ?v" "?v \<le> 1" using rng_next_range [OF assms(2)] by simp_all
  have "real (unat (out_word (next_state g))) < 1073741824
        \<or> 3221225472 < real (unat (out_word (next_state g)))"
    using assms(3) by linarith
  then have "?v < 1 / 4 \<or> 3 / 4 < ?v"
    unfolding v by (simp only: less_divide_eq divide_less_eq) simp
  with r have "(0 \<le> ?v \<and> ?v < 1 / 4) \<or> (3 / 4 < ?v \<and> ?v \<le> 1)" by blast
  then have "0 < cos (2 * pi * ?v)" by (rule cos_2pi_pos)
  with sqrt_log_pos [OF u] have "0 < sqrt (- 2 * ln ?u) * cos (2 * pi * ?v)"
    by simp
  then show ?thesis
    using nextNormal_two_draws [OF assms(1,2), of 0 1] by simp
qed

lemma nextNormal_some:
  assumes "out_word g \<noteq> 0" and "out_word (next_state g) \<noteq> 0"
  shows "\<exists>z. nextNormal 0 1 g = Some (z, next_state (next_state g))"
  using nextNormal_two_draws [OF assms, of 0 1] by simp

section \<open>Seeds beyond \<open>2^53\<close>\<close>

lemmas rng_eval = f64_exp_small f64_exp_large f64_of_int_def to_uint32_def mix32_def Let_def

lemma mix32_0: "mix32 0 = 0"
  by (simp add: rng_eval)

lemma mix32_golden: "mix32 2654435769 = 2940640070"
  by (simp add: rng_eval)

lemma mix32_golden_rounded: "mix32 2654435768 = 2230956793"
  by (simp add: rng_eval)

lemma f64_golden_sum: "f64_of_int 9007201909176761 = 9007201909176760"
  by (simp add: rng_eval)

lemma SeededRandom_0: "SeededRandom (Some 0) = \<lparr>s0 = 0, s1 = 2940640070\<rparr>"
proof -
  have "f64_of_int 2654435769 = 2654435769" by (rule f64_of_int_exact) simp
  then show ?thesis
    by (simp add: SeededRandom_def Let_def to_uint32_def mix32_0 mix32_golden)
qed

lemma SeededRandom_2_53: "SeededRandom (Some 9007199254740992) = \<lparr>s0 = 0, s1 = 2230956793\<rparr>"
proof -
  have a: "to_uint32 9007199254740992 = 0"
    by (simp add: to_uint32_def)
  have b: "to_uint32 9007201909176760 = 2654435768"
    by (simp add: to_uint32_def)
  show ?thesis
    by (simp add: SeededRandom_def Let_def f64_golden_sum a b mix32_0 mix32_golden_rounded)
qed

lemmas step_eval = out_word_def next_state_def scramble_def Let_def

lemma draws_seed_0:
  "\<exists>z1 z2 g1 g2. nextNormal 0 1 (SeededRandom (Some 0)) = Some (z1, g1) \<and> z1 < 0
               \<and> nextNormal 0 1 g1 = Some (z2, g2)"
proof -
  let ?g = "\<lparr>s0 = 0, s1 = 2940640070\<rparr>"
  have g2: "next_state (next_state ?g) = \<lparr>s0 = 2940640109, s1 = 2734687779\<rparr>"
    by (simp add: step_eval)
  have "out_word ?g \<noteq> 0" by (simp add: step_eval)
  moreover have "1073741824 < unat (out_word (next_state ?g))"
    "unat (out_word (next_state ?g)) < 3221225472"
    by (simp_all add: step_eval)
  ultimately obtain z1 where a: "nextNormal 0 1 ?g = Some (z1, next_state (next_state ?g))" "z1 < 0"
    using nextNormal_negative [of ?g] by blast
  have "out_word \<lparr>s0 = 2940640109, s1 = 2734687779\<rparr> \<noteq> 0"
    "out_word (next_state \<lparr>s0 = 2940640109, s1 = 2734687779\<rparr>) \<noteq> 0"
    by (simp_all add: step_eval)
  then obtain z2 g2' where "nextNormal 0 1 \<lparr>s0 = 2940640109, s1 = 2734687779\<rparr> = Some (z2, g2')"
    using nextNormal_some by blast
  with a g2 show ?thesis by (simp only: SeededRandom_0) blast
qed

lemma draws_seed_2_53:
  "\<exists>z1 z2 g1 g2. nextNormal 0 1 (SeededRandom (Some 9007199254740992)) = Some (z1, g1) \<and> 0 < z1
               \<and> nextNormal 0 1 g1 = Some (z2, g2)"
proof -
  let ?g = "\<lparr>s0 = 0, s1 = 2230956793\<rparr>"
  have g2: "next_state (next_state ?g) = \<lparr>s0 = 2230956760, s1 = 2088795196\<rparr>"
    by (simp add: step_eval)
  have "out_word ?g \<noteq> 0" "out_word (next_state ?g) \<noteq> 0"
    by (simp_all add: step_eval)
  moreover have "unat (out_word (next_state ?g)) < 1073741824"
    by (simp add: step_eval)
  ultimately obtain z1 where a: "nextNormal 0 1 ?g = Some (z1, next_state (next_state ?g))" "0 < z1"
    using nextNormal_positive [of ?g] by blast
  have "out_word \<lparr>s0 = 2230956760, s1 = 2088795196\<rparr> \<noteq> 0"
    "out_word (next_state \<lparr>s0 = 2230956760, s1 = 2088795196\<rparr>) \<noteq> 0"
    by (simp_all add: step_eval)
  then obtain z2 g2' where "nextNormal 0 1 \<lparr>s0 = 2230956760, s1 = 2088795196\<rparr> = Some (z2, g2')"
    using nextNormal_some by blast
  with a g2 show ?thesis by (simp only: SeededRandom_2_53) blast
qed

lemma seed_params_initial:
  "initial_state (seed_params s) = \<lparr>riskyCorpus = 0, safeRemain = 100, w_annual = 20, w_disc_adj = 0\<rparr>"
  by (simp add: initial_state_def seed_params_def DEFAULT_PARAMS_def Let_def)

lemma seed_params_year:
  "year_step (seed_params s) 1 z1 z2 \<lparr>riskyCorpus = 0, safeRemain = 100, w_annual = 20, w_disc_adj = 0\<rparr>
   = \<lparr>riskyCorpus = 0, safeRemain = (if z1 < 0 then 85.5 else 105.5), w_annual = 20, w_disc_adj = 0\<rparr>"
proof -
  have r: "sample_r (seed_params s) z1 < 0 \<longleftrightarrow> z1 < 0"
    by (simp add: sample_r_def seed_params_def DEFAULT_PARAMS_def mult_less_0_iff)
  have g: "grow_safe (seed_params s) 100 = 211 / 2"
    by (simp add: grow_safe_def seed_params_def DEFAULT_PARAMS_def)
  have w: "adjust_spend (seed_params s) 1 c x = x" for c x
    by (simp add: adjust_spend_def)
  have d: "cut_disc (seed_params s) b 0 = 0" for b
    by (simp add: cut_disc_def)
  have o: "draw_order (seed_params s) 1 b 20 (0, 211 / 2) = (if b then (0, 171 / 2) else (- 20, 211 / 2))" for b
    by (simp add: draw_order_def draw_safe_first_def seed_params_def DEFAULT_PARAMS_def)
  show ?thesis
    by (simp add: year_step_def Let_def r g w d o totalW_of_def)
qed

lemma seed_params_run:
  assumes "nextNormal 0 1 (SeededRandom (Some s)) = Some (z1, g1)"
      and "nextNormal 0 1 g1 = Some (z2, g2)"
  shows "runMonteCarlo (seed_params s) =
           Some (Inr [\<lparr>year = 0, p10 = Num 100, p50 = Num 100, p90 = Num 100, successRate = Num 100\<rparr>,
                      \<lparr>year = 1, p10 = Num (if z1 < 0 then 85.5 else 105.5),
                        p50 = Num (if z1 < 0 then 85.5 else 105.5),
                        p90 = Num (if z1 < 0 then 85.5 else 105.5), successRate = Num 100\<rparr>])"
proof -
  let ?p = "seed_params s"
  let ?st = "\<lparr>riskyCorpus = 0, safeRemain = 100, w_annual = 20, w_disc_adj = 0\<rparr>"
  let ?v = "if z1 < 0 then 85.5 else 105.5 :: real"
  have y: "years ?p = 1" "sims ?p = 1" "randomSeed ?p = Some s"
    by (simp_all add: seed_params_def DEFAULT_PARAMS_def)
  have "year_loop ?p (1 + 1) (year_step ?p 1 z1 z2 ?st) g2 = Some ([], g2)"
    by (rule year_loop_done) (simp add: y)
  from year_loop_go [OF _ assms _ this]
  have "year_loop ?p 1 ?st (SeededRandom (Some s)) = Some ([?v], g2)"
    by (simp add: y seed_params_year)
  then have "trial ?p (SeededRandom (Some s)) = Some ([100, ?v], g2)"
    by (simp add: trial_def seed_params_initial)
  then have "sim_loop ?p (Suc 0) (SeededRandom (Some s)) = Some ([[100, ?v]], g2)"
    by simp
  moreover have "[0..years ?p] = [0, 1]" by (simp add: y upto_rec1)
  ultimately show ?thesis
    by (simp add: runMonteCarlo_def y year_result_def year_summary_def at_index_def success_pct_def)
qed

text \<open>
  C9 states that two integer seeds congruent modulo \<open>2^32\<close> give identical results.
  The constructor adds 0x9e3779b9 to the seed before it truncates; for the seed \<open>2^53\<close>
  the sum is not a float64 and rounds to an even neighbour, so the second state word
  differs from the one for seed 0, and so does the result.
\<close>

theorem seed_congruence_counterexample:
  "(0::int) mod 2 ^ 32 = 9007199254740992 mod 2 ^ 32
   \<and> runMonteCarlo (seed_params 0) \<noteq> runMonteCarlo (seed_params 9007199254740992)"
proof -
  from draws_seed_0 obtain z1 z2 g1 g2
    where a: "nextNormal 0 1 (SeededRandom (Some 0)) = Some (z1, g1)" "z1 < 0"
      "nextNormal 0 1 g1 = Some (z2, g2)" by blast
  from draws_seed_2_53 obtain y1 y2 h1 h2
    where b: "nextNormal 0 1 (SeededRandom (Some 9007199254740992)) = Some (y1, h1)" "0 < y1"
      "nextNormal 0 1 h1 = Some (y2, h2)" by blast
  from seed_params_run [OF a(1,3)] seed_params_run [OF b(1,3)] a(2) b(2)
  show ?thesis by simp
qed

text \<open>
  C9, as the code has it. The result depends on the seed only through its value modulo
  \<open>2^32\<close> for integer seeds from \<open>- 2^53\<close> to \<open>2^53 - 0x9e3779b9\<close>, where the sum
  seed + 0x9e3779b9 is exact: two such seeds congruent modulo \<open>2^32\<close>, in otherwise
  identical configurations, give identical results.
\<close>

theorem seed_matters_modulo_2_32:
  assumes "s mod 2 ^ 32 = t mod 2 ^ 32"
      and "- (2 ^ 53) \<le> s" and "s + 0x9e3779b9 \<le> 2 ^ 53"
      and "- (2 ^ 53) \<le> t" and "t + 0x9e3779b9 \<le> 2 ^ 53"
  shows "runMonteCarlo (p\<lparr>randomSeed := Some s\<rparr>) = runMonteCarlo (p\<lparr>randomSeed := Some t\<rparr>)"
proof -
  have "\<bar>s + 0x9e3779b9\<bar> \<le> 9007199254740992" "\<bar>t + 0x9e3779b9\<bar> \<le> 9007199254740992"
    using assms(2-5) by simp_all
  then have e: "f64_of_int (s + 0x9e3779b9) = s + 0x9e3779b9"
    "f64_of_int (t + 0x9e3779b9) = t + 0x9e3779b9"
    by (simp_all add: f64_of_int_exact)
  have a: "to_uint32 s = to_uint32 t"
    using assms(1) by (simp add: to_uint32_def word_of_int_eq_iff take_bit_eq_mod)
  have b: "to_uint32 (s + 0x9e3779b9) = to_uint32 (t + 0x9e3779b9)"
    using assms(1) by (simp add: to_uint32_def word_of_int_eq_iff take_bit_eq_mod)
  have "SeededRandom (Some s) = SeededRandom (Some t)"
    by (simp add: SeededRandom_def e a b)
  then show ?thesis by (rule runMonteCarlo_seed)
qed

theorem seed_matters_modulo_2_32_witness:
  "(5::int) mod 2 ^ 32 = (5 - 2 ^ 32) mod 2 ^ 32
   \<and> - (2 ^ 53) \<le> (5::int) \<and> (5::int) + 0x9e3779b9 \<le> 2 ^ 53
   \<and> - (2 ^ 53) \<le> (5 - 2 ^ 32 :: int) \<and> (5 - 2 ^ 32 :: int) + 0x9e3779b9 \<le> 2 ^ 53
   \<and> runMonteCarlo (DEFAULT_PARAMS\<lparr>randomSeed := Some 5\<rparr>)
       = runMonteCarlo (DEFAULT_PARAMS\<lparr>randomSeed := Some (5 - 2 ^ 32)\<rparr>)"
proof -
  have h: "(5::int) mod 2 ^ 32 = (5 - 2 ^ 32) mod 2 ^ 32"
    "- (2 ^ 53) \<le> (5::int)" "(5::int) + 0x9e3779b9 \<le> 2 ^ 53"
    "- (2 ^ 53) \<le> (5 - 2 ^ 32 :: int)" "(5 - 2 ^ 32 :: int) + 0x9e3779b9 \<le> 2 ^ 53"
    by simp_all
  from seed_matters_modulo_2_32 [OF h, of DEFAULT_PARAMS] h show ?thesis by blast
qed

section \<open>Early termination and the shared stream\<close>

subsection \<open>The first sixteen draws of the default seed\<close>

lemma mix32_12345: "mix32 12345 = 1011272134"
  by (simp add: rng_eval)

lemma mix32_12345_golden: "mix32 2654448114 = 3823196641"
  by (simp add: rng_eval)

lemma SeededRandom_default: "SeededRandom None = \<lparr>s0 = 1011272134, s1 = 3823196641\<rparr>"
proof -
  have "f64_of_int 2654448114 = 2654448114" by (rule f64_of_int_exact) simp
  then show ?thesis
    by (simp add: SeededRandom_def Let_def to_uint32_def mix32_12345 mix32_12345_golden)
qed

lemma default_draw_1:
  "\<exists>z. nextNormal 0 1 \<lparr>s0 = 1011272134, s1 = 3823196641\<rparr> =
          Some (z, \<lparr>s0 = 1017642940, s1 = 801550306\<rparr>) \<and> z < 0"
proof -
  let ?g = "\<lparr>s0 = 1011272134, s1 = 3823196641\<rparr>"
  have e: "next_state (next_state ?g) = \<lparr>s0 = 1017642940, s1 = 801550306\<rparr>"
    by (simp add: step_eval)
  have "out_word ?g \<noteq> 0" "1073741824 < unat (out_word (next_state ?g))"
    "unat (out_word (next_state ?g)) < 3221225472"
    by (simp_all add: step_eval)
  from nextNormal_negative [OF this] show ?thesis by (simp only: e)
qed

lemma default_draw_2:
  "\<exists>z. nextNormal 0 1 \<lparr>s0 = 1017642940, s1 = 801550306\<rparr> =
          Some (z, \<lparr>s0 = 3445694726, s1 = 329769396\<rparr>)"
proof -
  let ?g = "\<lparr>s0 = 1017642940, s1 = 801550306\<rparr>"
  have e: "next_state (next_state ?g) = \<lparr>s0 = 3445694726, s1 = 329769396\<rparr>"
    by (simp add: step_eval)
  have "out_word ?g \<noteq> 0" "out_word (next_state ?g) \<noteq> 0"
    by (simp_all add: step_eval)
  from nextNormal_some [OF this] show ?thesis by (simp only: e)
qed

lemma default_draw_3:
  "\<exists>z. nextNormal 0 1 \<lparr>s0 = 3445694726, s1 = 329769396\<rparr> =
          Some (z, \<lparr>s0 = 1573316486, s1 = 2489410294\<rparr>) \<and> 0 < z"
proof -
  let ?g = "\<lparr>s0 = 3445694726, s1 = 329769396\<rparr>"
  have e: "next_state (next_state ?g) = \<lparr>s0 = 1573316486, s1 = 2489410294\<rparr>"
    by (simp add: step_eval)
  have "out_word ?g \<noteq> 0" "out_word (next_state ?g) \<noteq> 0"
    "unat (out_word (next_state ?g)) < 1073741824 \<or> 3221225472 < unat (out_word (next_state ?g))"
    by (simp_all add: step_eval)
  from nextNormal_positive [OF this] show ?thesis by (simp only: e)
qed

lemma default_draw_4:
  "\<exists>z. nextNormal 0 1 \<lparr>s0 = 1573316486, s1 = 2489410294\<rparr> =
          Some (z, \<lparr>s0 = 178768438, s1 = 3855015794\<rparr>)"
proof -
  let ?g = "\<lparr>s0 = 1573316486, s1 = 2489410294\<rparr>"
  have e: "next_state (next_state ?g) = \<lparr>s0 = 178768438, s1 = 3855015794\<rparr>"
    by (simp add: step_eval)
  have "out_word ?g \<noteq> 0" "out_word (next_state ?g) \<noteq> 0"
    by (simp_all add: step_eval)
  from nextNormal_some [OF this] show ?thesis by (simp only: e)
qed

lemma default_draw_5:
  "\<exists>z. nextNormal 0 1 \<lparr>s0 = 178768438, s1 = 3855015794\<rparr> =
          Some (z, \<lparr>s0 = 4100005294, s1 = 2829577346\<rparr>) \<and> z < 0"
proof -
  let ?g = "\<lparr>s0 = 178768438, s1 = 3855015794\<rparr>"
  have e: "next_state (next_state ?g) = \<lparr>s0 = 4100005294, s1 = 2829577346\<rparr>"
    by (simp add: step_eval)
  have "out_word ?g \<noteq> 0" "1073741824 < unat (out_word (next_state ?g))"
    "unat (out_word (next_state ?g)) < 3221225472"
    by (simp_all add: step_eval)
  from nextNormal_negative [OF this] show ?thesis by (simp only: e)
qed

lemma default_draw_6:
  "\<exists>z. nextNormal 0 1 \<lparr>s0 = 4100005294, s1 = 2829577346\<rparr> =
          Some (z, \<lparr>s0 = 2345066678, s1 = 1650555077\<rparr>)"
proof -
  let ?g = "\<lparr>s0 = 4100005294, s1 = 2829577346\<rparr>"
  have e: "next_state (next_state ?g) = \<lparr>s0 = 2345066678, s1 = 1650555077\<rparr>"
    by (simp add: step_eval)
  have "out_word ?g \<noteq> 0" "out_word (next_state ?g) \<noteq> 0"
    by (simp_all add: step_eval)
  from nextNormal_some [OF this] show ?thesis by (simp only: e)
qed

lemma default_draw_7:
  "\<exists>z. nextNormal 0 1 \<lparr>s0 = 2345066678, s1 = 1650555077\<rparr> =
          Some (z, \<lparr>s0 = 2997350408, s1 = 2990966929\<rparr>)"
proof -
  let ?g = "\<lparr>s0 = 2345066678, s1 = 1650555077\<rparr>"
  have e: "next_state (next_state ?g) = \<lparr>s0 = 2997350408, s1 = 2990966929\<rparr>"
    by (simp add: step_eval)
  have "out_word ?g \<noteq> 0" "out_word (next_state ?g) \<noteq> 0"
    by (simp_all add: step_eval)
  from nextNormal_some [OF this] show ?thesis by (simp only: e)
qed

lemma default_draw_8:
  "\<exists>z. nextNormal 0 1 \<lparr>s0 = 2997350408, s1 = 2990966929\<rparr> =
          Some (z, \<lparr>s0 = 81863654, s1 = 4264023573\<rparr>)"
proof -
  let ?g = "\<lparr>s0 = 2997350408, s1 = 2990966929\<rparr>"
  have e: "next_state (next_state ?g) = \<lparr>s0 = 81863654, s1 = 4264023573\<rparr>"
    by (simp add: step_eval)
  have "out_word ?g \<noteq> 0" "out_word (next_state ?g) \<noteq> 0"
    by (simp_all add: step_eval)
  from nextNormal_some [OF this] show ?thesis by (simp only: e)
qed

subsection \<open>The years of the example\<close>

lemma early_exit_fields:
  "years early_exit_params = 2" "sims early_exit_params = 2"
  "randomSeed early_exit_params = None"
  by (simp_all add: early_exit_params_def DEFAULT_PARAMS_def)

lemma early_exit_initial:
  "initial_state early_exit_params
   = \<lparr>riskyCorpus = 0, safeRemain = 100, w_annual = 200, w_disc_adj = 0\<rparr>"
  by (simp add: initial_state_def early_exit_params_def DEFAULT_PARAMS_def Let_def)

lemma early_exit_bad: "sample_r early_exit_params z1 < 0 \<longleftrightarrow> z1 < 0"
  by (simp add: sample_r_def early_exit_params_def DEFAULT_PARAMS_def mult_less_0_iff)

lemma early_exit_infl: "sample_clippedInfl early_exit_params z1 z2 = 3 / 40"
  by (simp add: sample_clippedInfl_def early_exit_params_def DEFAULT_PARAMS_def Let_def)

lemma early_exit_cut: "cut_disc early_exit_params b 0 = 0"
  by (simp add: cut_disc_def)

lemma early_exit_year1:
  "year_step early_exit_params 1 z1 z2
     \<lparr>riskyCorpus = 0, safeRemain = 100, w_annual = 200, w_disc_adj = 0\<rparr>
   = (if z1 < 0 then \<lparr>riskyCorpus = 0, safeRemain = 0, w_annual = 200, w_disc_adj = 0\<rparr>
      else \<lparr>riskyCorpus = 0, safeRemain = 211 / 2, w_annual = 200, w_disc_adj = 0\<rparr>)"
proof -
  have g: "grow_safe early_exit_params 100 = 211 / 2"
    by (simp add: grow_safe_def early_exit_params_def DEFAULT_PARAMS_def)
  have w: "adjust_spend early_exit_params 1 c x = x" for c x
    by (simp add: adjust_spend_def)
  have o: "draw_order early_exit_params 1 b 200 (0, 211 / 2)
           = (if b then (- (189 / 2), 0) else (- 200, 211 / 2))" for b
    by (simp add: draw_order_def draw_safe_first_def early_exit_params_def DEFAULT_PARAMS_def)
  show ?thesis
    by (simp add: year_step_def Let_def early_exit_bad early_exit_cut g w o totalW_of_def)
qed

lemma early_exit_year2:
  "year_step early_exit_params 2 z1 z2
     \<lparr>riskyCorpus = 0, safeRemain = 211 / 2, w_annual = 200, w_disc_adj = 0\<rparr>
   = (if z1 < 0 then \<lparr>riskyCorpus = 0, safeRemain = 0, w_annual = 215, w_disc_adj = 0\<rparr>
      else \<lparr>riskyCorpus = 0, safeRemain = 44521 / 400, w_annual = 215, w_disc_adj = 0\<rparr>)"
proof -
  have g: "grow_safe early_exit_params (211 / 2) = 44521 / 400"
    by (simp add: grow_safe_def early_exit_params_def DEFAULT_PARAMS_def)
  have w: "adjust_spend early_exit_params 2 (3 / 40) 200 = 215"
    "adjust_spend early_exit_params 2 (3 / 40) 0 = 0"
    by (simp_all add: adjust_spend_def early_exit_params_def DEFAULT_PARAMS_def)
  have o: "draw_order early_exit_params 2 b 215 (0, 44521 / 400)
           = (if b then (- (41479 / 400), 0) else (- 215, 44521 / 400))" for b
    by (simp add: draw_order_def draw_safe_first_def early_exit_params_def DEFAULT_PARAMS_def)
  show ?thesis
    by (simp add: year_step_def Let_def early_exit_bad early_exit_infl early_exit_cut g w o
        totalW_of_def)
qed

lemma early_exit_year2_depleted:
  "year_step early_exit_params 2 z1 z2
     \<lparr>riskyCorpus = 0, safeRemain = 0, w_annual = 200, w_disc_adj = 0\<rparr>
   = \<lparr>riskyCorpus = 0, safeRemain = 0, w_annual = 215, w_disc_adj = 0\<rparr>"
proof -
  have w: "adjust_spend early_exit_params 2 (3 / 40) 200 = 215"
    "adjust_spend early_exit_params 2 (3 / 40) 0 = 0"
    by (simp_all add: adjust_spend_def early_exit_params_def DEFAULT_PARAMS_def)
  show ?thesis
    by (simp add: year_step_def Let_def early_exit_infl early_exit_cut grow_safe_zero w
        draw_order_empty_safe totalW_of_def)
qed

subsection \<open>The trials of the example\<close>

text \<open>A trial whose first year is a loss year: with the exit it consumes two normal draws.\<close>

lemma early_exit_trial_depleted:
  assumes "nextNormal 0 1 g = Some (z1, g1)" and "z1 < 0"
      and "nextNormal 0 1 g1 = Some (z2, g2)"
  shows "trial early_exit_params g = Some ([100, 0, 0], g2)"
proof -
  let ?p = "early_exit_params"
  let ?st = "\<lparr>riskyCorpus = 0, safeRemain = 100, w_annual = 200, w_disc_adj = 0\<rparr>"
  have "year_loop ?p 1 ?st g = Some (0 # replicate (nat (years ?p - 1)) 0, g2)"
    by (rule year_loop_exit [OF _ assms(1,3)])
       (simp_all add: early_exit_fields early_exit_year1 assms(2))
  then show ?thesis
    by (simp add: trial_def early_exit_initial early_exit_fields)
qed

text \<open>Without the exit the same trial consumes four.\<close>

lemma early_exit_trial_continue_depleted:
  assumes "nextNormal 0 1 g = Some (z1, g1)" and "z1 < 0"
      and "nextNormal 0 1 g1 = Some (z2, g2)"
      and "nextNormal 0 1 g2 = Some (z3, g3)"
      and "nextNormal 0 1 g3 = Some (z4, g4)"
  shows "trial_continue early_exit_params g = Some ([100, 0, 0], g4)"
proof -
  let ?p = "early_exit_params"
  let ?st = "\<lparr>riskyCorpus = 0, safeRemain = 100, w_annual = 200, w_disc_adj = 0\<rparr>"
  let ?st1 = "\<lparr>riskyCorpus = 0, safeRemain = 0, w_annual = 200, w_disc_adj = 0\<rparr>"
  let ?st2 = "\<lparr>riskyCorpus = 0, safeRemain = 0, w_annual = 215, w_disc_adj = 0\<rparr>"
  have s1: "year_step ?p 1 z1 z2 ?st = ?st1" by (simp add: early_exit_year1 assms(2))
  have s2: "year_step ?p 2 z3 z4 ?st1 = ?st2" by (rule early_exit_year2_depleted)
  have "year_loop_continue ?p (2 + 1) ?st2 g4 = Some ([], g4)"
    by (rule year_loop_continue_done) (simp add: early_exit_fields)
  then have "year_loop_continue ?p (2 + 1) (year_step ?p 2 z3 z4 ?st1) g4 = Some ([], g4)"
    by (simp only: s2)
  from year_loop_continue_go [OF _ assms(4,5) this]
  have "year_loop_continue ?p 2 ?st1 g2 = Some ([0], g4)"
    by (simp add: early_exit_fields s2)
  then have "year_loop_continue ?p (1 + 1) (year_step ?p 1 z1 z2 ?st) g2 = Some ([0], g4)"
    by (simp add: s1)
  from year_loop_continue_go [OF _ assms(1,3) this]
  have "year_loop_continue ?p 1 ?st g = Some ([0, 0], g4)"
    by (simp add: early_exit_fields s1)
  then show ?thesis
    by (simp add: trial_continue_def early_exit_initial)
qed

text \<open>A trial whose first year is no loss year and whose second is.\<close>

lemma early_exit_trial_late:
  assumes "nextNormal 0 1 g = Some (z1, g1)" and "0 < z1"
      and "nextNormal 0 1 g1 = Some (z2, g2)"
      and "nextNormal 0 1 g2 = Some (z3, g3)" and "z3 < 0"
      and "nextNormal 0 1 g3 = Some (z4, g4)"
  shows "trial early_exit_params g = Some ([100, 211 / 2, 0], g4)"
proof -
  let ?p = "early_exit_params"
  let ?st = "\<lparr>riskyCorpus = 0, safeRemain = 100, w_annual = 200, w_disc_adj = 0\<rparr>"
  let ?st1 = "\<lparr>riskyCorpus = 0, safeRemain = 211 / 2, w_annual = 200, w_disc_adj = 0\<rparr>"
  have s1: "year_step ?p 1 z1 z2 ?st = ?st1" using assms(2) by (simp add: early_exit_year1)
  have "year_loop ?p 2 ?st1 g2 = Some (0 # replicate (nat (years ?p - 2)) 0, g4)"
    by (rule year_loop_exit [OF _ assms(4,6)])
       (simp_all add: early_exit_fields early_exit_year2 assms(5))
  then have "year_loop ?p (1 + 1) (year_step ?p 1 z1 z2 ?st) g2 = Some ([0], g4)"
    by (simp add: s1 early_exit_fields)
  from year_loop_go [OF _ assms(1,3) _ this]
  have "year_loop ?p 1 ?st g = Some ([211 / 2, 0], g4)"
    by (simp add: early_exit_fields s1)
  then show ?thesis
    by (simp add: trial_def early_exit_initial)
qed

subsection \<open>The two runs\<close>

lemma early_exit_cols:
  "\<exists>g. sim_loop early_exit_params 2 (SeededRandom None) = Some ([[100, 0, 0], [100, 211 / 2, 0]], g)"
proof -
  from default_draw_1 default_draw_2
  have t1: "trial early_exit_params \<lparr>s0 = 1011272134, s1 = 3823196641\<rparr>
            = Some ([100, 0, 0], \<lparr>s0 = 3445694726, s1 = 329769396\<rparr>)"
    using early_exit_trial_depleted by blast
  from default_draw_3 default_draw_4 default_draw_5 default_draw_6
  have t2: "trial early_exit_params \<lparr>s0 = 3445694726, s1 = 329769396\<rparr>
            = Some ([100, 211 / 2, 0], \<lparr>s0 = 2345066678, s1 = 1650555077\<rparr>)"
    using early_exit_trial_late by blast
  have "sim_loop early_exit_params (Suc (Suc 0)) \<lparr>s0 = 1011272134, s1 = 3823196641\<rparr>
        = Some ([[100, 0, 0], [100, 211 / 2, 0]], \<lparr>s0 = 2345066678, s1 = 1650555077\<rparr>)"
    by (simp add: t1 t2)
  then show ?thesis by (simp add: SeededRandom_default numeral_2_eq_2)
qed

lemma early_exit_continue_cols:
  "\<exists>g. sim_loop_continue early_exit_params 2 (SeededRandom None) = Some ([[100, 0, 0], [100, 0, 0]], g)"
proof -
  from default_draw_1 default_draw_2 default_draw_3 default_draw_4
  have t1: "trial_continue early_exit_params \<lparr>s0 = 1011272134, s1 = 3823196641\<rparr>
            = Some ([100, 0, 0], \<lparr>s0 = 178768438, s1 = 3855015794\<rparr>)"
    using early_exit_trial_continue_depleted by blast
  from default_draw_5 default_draw_6 default_draw_7 default_draw_8
  have t2: "trial_continue early_exit_params \<lparr>s0 = 178768438, s1 = 3855015794\<rparr>
            = Some ([100, 0, 0], \<lparr>s0 = 81863654, s1 = 4264023573\<rparr>)"
    using early_exit_trial_continue_depleted by blast
  have "sim_loop_continue early_exit_params (Suc (Suc 0)) \<lparr>s0 = 1011272134, s1 = 3823196641\<rparr>
        = Some ([[100, 0, 0], [100, 0, 0]], \<lparr>s0 = 81863654, s1 = 4264023573\<rparr>)"
    by (simp add: t1 t2)
  then show ?thesis by (simp add: SeededRandom_default numeral_2_eq_2)
qed

lemma upto_0_2: "[0..2] = [0, 1, 2::int]"
  by (simp add: upto_rec1)

lemma early_exit_run:
  "runMonteCarlo early_exit_params =
     Some (Inr [\<lparr>year = 0, p10 = Num 100, p50 = Num 100, p90 = Num 100, successRate = Num 100\<rparr>,
                \<lparr>year = 1, p10 = Num 0, p50 = Num (211 / 2), p90 = Num (211 / 2), successRate = Num 50\<rparr>,
                \<lparr>year = 2, p10 = Num 0, p50 = Num 0, p90 = Num 0, successRate = Num 0\<rparr>])"
proof -
  from early_exit_cols obtain g
    where "sim_loop early_exit_params 2 (SeededRandom None)
           = Some ([[100, 0, 0], [100, 211 / 2, 0]], g)" by blast
  then show ?thesis
    by (simp add: runMonteCarlo_def early_exit_fields upto_0_2 year_result_def
        year_summary_def at_index_def success_pct_def)
qed

lemma early_exit_continue_run:
  "runMonteCarlo_continue early_exit_params =
     Some (Inr [\<lparr>year = 0, p10 = Num 100, p50 = Num 100, p90 = Num 100, successRate = Num 100\<rparr>,
                \<lparr>year = 1, p10 = Num 0, p50 = Num 0, p90 = Num 0, successRate = Num 0\<rparr>,
                \<lparr>year = 2, p10 = Num 0, p50 = Num 0, p90 = Num 0, successRate = Num 0\<rparr>])"
proof -
  from early_exit_continue_cols obtain g
    where "sim_loop_continue early_exit_params 2 (SeededRandom None)
           = Some ([[100, 0, 0], [100, 0, 0]], g)" by blast
  then show ?thesis
    by (simp add: runMonteCarlo_continue_def early_exit_fields upto_0_2 year_result_def
        year_summary_def at_index_def success_pct_def)
qed

text \<open>
  C1 states that the output of runMonteCarlo is identical to that of the variant that
  keeps advancing a depleted trial, draws included. In the example the first trial is
  depleted in year 1. With the exit the second trial reads the third normal draw of the
  stream for its first year, which is no loss year; in the variant the first trial has
  consumed that draw, the second trial reads the fifth, a loss year, and is depleted at
  once. The medians of year 1 differ.
\<close>

theorem early_exit_changes_output:
  "runMonteCarlo early_exit_params \<noteq> runMonteCarlo_continue early_exit_params"
  by (simp add: early_exit_run early_exit_continue_run)

text \<open>
  C1, as the code has it. The early termination changes nothing in what the depleted
  trial itself records: for w0 \<ge> 0 and taper \<le> 1, from every state a generator can be in,
  a trial records the same values for the years 0 .. years with the exit as without it
  (zeros after depletion), so with at most one trial the output of runMonteCarlo is that
  of the continuing variant. The exit does not consume the draws that continuing would
  consume: the generator a depleted trial leaves behind differs.
\<close>

theorem early_exit_keeps_trial_values:
  assumes "0 \<le> w0 p" and "taper p \<le> 1"
  shows "(nonzero g \<longrightarrow>
            (\<exists>col g1 g2. trial p g = Some (col, g1) \<and> trial_continue p g = Some (col, g2)))
       \<and> (sims p \<le> 1 \<longrightarrow> runMonteCarlo p = runMonteCarlo_continue p)"
proof -
  have t: "\<exists>col g1 g2. trial p g = Some (col, g1) \<and> trial_continue p g = Some (col, g2)"
    if "nonzero g" for g
  proof -
    have "0 \<le> w_annual (initial_state p)" using assms(1) by (simp add: initial_state_def Let_def)
    from year_loops_agree [OF this assms(2) that, of 1] obtain vs g1 g2
      where "year_loop p 1 (initial_state p) g = Some (vs, g1)"
        "year_loop_continue p 1 (initial_state p) g = Some (vs, g2)" by blast
    then show ?thesis by (simp add: trial_def trial_continue_def Let_def)
  qed
  have "runMonteCarlo p = runMonteCarlo_continue p" if "sims p \<le> 1"
  proof (cases "sims p \<le> 0")
    case True
    then have "nat (sims p) = 0" by simp
    then show ?thesis by (simp add: runMonteCarlo_def runMonteCarlo_continue_def)
  next
    case False
    with that have n: "nat (sims p) = Suc 0" by simp
    from t [OF SeededRandom_nonzero, of "randomSeed p"] obtain col g1 g2
      where "trial p (SeededRandom (randomSeed p)) = Some (col, g1)"
        "trial_continue p (SeededRandom (randomSeed p)) = Some (col, g2)" by blast
    then show ?thesis by (simp add: runMonteCarlo_def runMonteCarlo_continue_def n)
  qed
  with t show ?thesis by blast
qed

theorem early_exit_keeps_trial_values_witness:
  "0 \<le> w0 early_exit_params \<and> taper early_exit_params \<le> 1 \<and> nonzero (SeededRandom None)
   \<and> trial early_exit_params (SeededRandom None)
       = Some ([100, 0, 0], \<lparr>s0 = 3445694726, s1 = 329769396\<rparr>)
   \<and> trial_continue early_exit_params (SeededRandom None)
       = Some ([100, 0, 0], \<lparr>s0 = 178768438, s1 = 3855015794\<rparr>)
   \<and> sims (early_exit_params\<lparr>sims := 1\<rparr>) \<le> 1
   \<and> runMonteCarlo (early_exit_params\<lparr>sims := 1\<rparr>)
       = runMonteCarlo_continue (early_exit_params\<lparr>sims := 1\<rparr>)"
proof -
  have h: "0 \<le> w0 early_exit_params" "taper early_exit_params \<le> 1"
    "0 \<le> w0 (early_exit_params\<lparr>sims := 1\<rparr>)" "taper (early_exit_params\<lparr>sims := 1\<rparr>) \<le> 1"
    by (simp_all add: early_exit_params_def DEFAULT_PARAMS_def)
  from default_draw_1 default_draw_2
  have t1: "trial early_exit_params (SeededRandom None)
            = Some ([100, 0, 0], \<lparr>s0 = 3445694726, s1 = 329769396\<rparr>)"
    unfolding SeededRandom_default using early_exit_trial_depleted by blast
  from default_draw_1 default_draw_2 default_draw_3 default_draw_4
  have t2: "trial_continue early_exit_params (SeededRandom None)
            = Some ([100, 0, 0], \<lparr>s0 = 178768438, s1 = 3855015794\<rparr>)"
    unfolding SeededRandom_default using early_exit_trial_continue_depleted by blast
  from early_exit_keeps_trial_values [OF h(3,4), of "SeededRandom None"]
  have "runMonteCarlo (early_exit_params\<lparr>sims := 1\<rparr>)
        = runMonteCarlo_continue (early_exit_params\<lparr>sims := 1\<rparr>)" by simp
  with h SeededRandom_nonzero t1 t2 show ?thesis by simp
qed

section \<open>Rounding to float64\<close>






section \<open>Year 0\<close>




subsection \<open>A corpus that rounds away\<close>





section \<open>Calls and their generators\<close>

lemma nextNormal_on_through:
  "nextNormal_on mean std rng h = through rng h (nextNormal mean std (h ! rng))"
  by (simp add: nextNormal_on_def through_def)

lemma year_loop_on_through:
  assumes "rng < length h"
  shows "year_loop_on p yr st rng h = through rng h (year_loop p yr st (h ! rng))"
  using assms
proof (induction "nat (years p + 1 - yr)" arbitrary: yr st h)
  case 0
  then have "yr > years p" by simp
  then show ?case
    by (simp add: year_loop_on.simps [of p yr] year_loop_done through_def)
next
  case (Suc n)
  then have le: "\<not> yr > years p" by linarith
  show ?case
  proof (cases "nextNormal 0 1 (h ! rng)")
    case None
    then show ?thesis
      using le
      by (simp add: year_loop_on.simps [of p yr] year_loop.simps [of p yr]
          nextNormal_on_def through_def)
  next
    case (Some a)
    obtain z1 g1 where a: "a = (z1, g1)" by (cases a)
    let ?h1 = "h[rng := g1]"
    have h1: "?h1 ! rng = g1" "rng < length ?h1" using Suc.prems by simp_all
    show ?thesis
    proof (cases "nextNormal 0 1 g1")
      case None
      then show ?thesis
        using le Some a h1
        by (simp add: year_loop_on.simps [of p yr] year_loop.simps [of p yr]
            nextNormal_on_def through_def)
    next
      case b: (Some c)
      obtain z2 g2 where c: "c = (z2, g2)" by (cases c)
      let ?h2 = "h[rng := g2]"
      have h2: "?h1[rng := g2] = ?h2" "?h2 ! rng = g2" "rng < length ?h2"
        using Suc.prems by simp_all
      have m: "n = nat (years p + 1 - (yr + 1))" using Suc.hyps(2) by linarith
      have ih: "year_loop_on p (yr + 1) st' rng ?h2
                = through rng ?h2 (year_loop p (yr + 1) st' g2)" for st'
        using Suc.hyps(1) [OF m h2(3), of st'] h2(2) by simp
      have u: "through rng ?h2 r = through rng h r" for r :: "(real list \<times> rng) option"
        by (simp add: through_def split: option.splits)
      show ?thesis
        using le Some a h1 b c h2
        by (simp add: year_loop_on.simps [of p yr st rng h] year_loop.simps [of p yr st "h ! rng"]
            nextNormal_on_def ih u Let_def)
          (simp add: through_def split: option.splits)
    qed
  qed
qed

lemma trial_on_through:
  assumes "rng < length h"
  shows "trial_on p rng h = through rng h (trial p (h ! rng))"
  by (simp add: trial_on_def trial_def year_loop_on_through [OF assms] through_def Let_def
      split: option.splits)

lemma sim_loop_on_through:
  assumes "rng < length h"
  shows "sim_loop_on p n rng h = through rng h (sim_loop p n (h ! rng))"
  using assms
proof (induction n arbitrary: h)
  case 0
  then show ?case by (simp add: through_def)
next
  case (Suc n)
  show ?case
  proof (cases "trial p (h ! rng)")
    case None
    then show ?thesis using Suc.prems by (simp add: trial_on_through through_def)
  next
    case (Some a)
    obtain col g1 where a: "a = (col, g1)" by (cases a)
    let ?h1 = "h[rng := g1]"
    have h1: "?h1 ! rng = g1" "rng < length ?h1" "?h1[rng := g] = h[rng := g]" for g
      using Suc.prems by simp_all
    have "sim_loop_on p n rng ?h1 = through rng ?h1 (sim_loop p n g1)"
      using Suc.IH [OF h1(2)] h1(1) by simp
    then show ?thesis
      using Some a Suc.prems h1
      by (simp add: trial_on_through through_def split: option.splits)
  qed
qed

text \<open>
  A call reads no generator of the store it starts in and writes none of them: its result
  is the one of \<open>runMonteCarlo\<close>, and the store it leaves is the old one and the generator
  it allocated.
\<close>

lemma runMonteCarlo_call_eq:
  "runMonteCarlo_call p h =
     (if (years p + 1) * sims p < 0 then Some (Inl RangeError, h @ [SeededRandom (randomSeed p)])
      else
        (case sim_loop p (nat (sims p)) (SeededRandom (randomSeed p)) of
           None \<Rightarrow> None
         | Some (cols, g) \<Rightarrow> Some (collect (map (year_result p cols) [0..years p]), h @ [g])))"
proof -
  let ?h0 = "h @ [SeededRandom (randomSeed p)]"
  have "sim_loop_on p n (length h) ?h0
        = through (length h) ?h0 (sim_loop p n (SeededRandom (randomSeed p)))" for n
    using sim_loop_on_through [of "length h" ?h0 p n] by simp
  then show ?thesis
    by (simp add: runMonteCarlo_call_def new_SeededRandom_def through_def split: option.splits)
qed

lemma runMonteCarlo_call_returns:
  "\<exists>r g. \<forall>h. runMonteCarlo_call p h = Some (r, h @ [g])"
proof -
  from sim_loop_returns [of p] obtain cols g'
    where "sim_loop p (nat (sims p)) (SeededRandom (randomSeed p)) = Some (cols, g')" by blast
  then show ?thesis
    by (cases "(years p + 1) * sims p < 0") (auto simp add: runMonteCarlo_call_eq)
qed

lemma SeededRandom_omitted: "SeededRandom None = SeededRandom (Some 12345)"
  by (simp add: SeededRandom_def)

lemma runMonteCarlo_call_omitted:
  assumes "randomSeed p = None"
  shows "runMonteCarlo_call (p\<lparr>randomSeed := Some 12345\<rparr>) h = runMonteCarlo_call p h"
  using assms
  by (simp add: runMonteCarlo_call_eq sim_loop_seed year_result_seed SeededRandom_omitted [symmetric]
      split: option.splits prod.splits)

lemma seed_params_cols:
  assumes "nextNormal 0 1 g = Some (z1, g1)"
      and "nextNormal 0 1 g1 = Some (z2, g2)"
  shows "sim_loop (seed_params s) (Suc 0) g = Some ([[100, if z1 < 0 then 171 / 2 else 211 / 2]], g2)"
proof -
  let ?p = "seed_params s"
  let ?st = "\<lparr>riskyCorpus = 0, safeRemain = 100, w_annual = 20, w_disc_adj = 0\<rparr>"
  have y: "years ?p = 1" by (simp add: seed_params_def DEFAULT_PARAMS_def)
  have "year_loop ?p (1 + 1) (year_step ?p 1 z1 z2 ?st) g2 = Some ([], g2)"
    by (rule year_loop_done) (simp add: y)
  from year_loop_go [OF _ assms _ this]
  have "year_loop ?p 1 ?st g = Some ([if z1 < 0 then 171 / 2 else 211 / 2], g2)"
    by (simp add: y seed_params_year)
  then have "trial ?p g = Some ([100, if z1 < 0 then 171 / 2 else 211 / 2], g2)"
    by (simp add: trial_def seed_params_initial)
  then show ?thesis by simp
qed

lemma seed_params_fresh_cols:
  "sim_loop (seed_params s) (Suc 0) \<lparr>s0 = 1011272134, s1 = 3823196641\<rparr>
   = Some ([[100, 171 / 2]], \<lparr>s0 = 3445694726, s1 = 329769396\<rparr>)"
proof -
  from default_draw_1 obtain z1
    where a: "nextNormal 0 1 \<lparr>s0 = 1011272134, s1 = 3823196641\<rparr>
              = Some (z1, \<lparr>s0 = 1017642940, s1 = 801550306\<rparr>)" "z1 < 0" by blast
  from default_draw_2 obtain z2
    where b: "nextNormal 0 1 \<lparr>s0 = 1017642940, s1 = 801550306\<rparr>
              = Some (z2, \<lparr>s0 = 3445694726, s1 = 329769396\<rparr>)" by blast
  from seed_params_cols [OF a(1) b, of s] a(2) show ?thesis by simp
qed

lemma seed_params_used_cols:
  "sim_loop (seed_params s) (Suc 0) \<lparr>s0 = 3445694726, s1 = 329769396\<rparr>
   = Some ([[100, 211 / 2]], \<lparr>s0 = 178768438, s1 = 3855015794\<rparr>)"
proof -
  from default_draw_3 obtain z1
    where a: "nextNormal 0 1 \<lparr>s0 = 3445694726, s1 = 329769396\<rparr>
              = Some (z1, \<lparr>s0 = 1573316486, s1 = 2489410294\<rparr>)" "0 < z1" by blast
  from default_draw_4 obtain z2
    where b: "nextNormal 0 1 \<lparr>s0 = 1573316486, s1 = 2489410294\<rparr>
              = Some (z2, \<lparr>s0 = 178768438, s1 = 3855015794\<rparr>)" by blast
  from seed_params_cols [OF a(1) b, of s] a(2) show ?thesis by simp
qed

text \<open>
  The generator of a call is left in another state than the one it was constructed in, and
  the difference is visible: the trial loop run on the generator that a first call with the
  default seed left in the store records 105.5 for year 1 where the call recorded 85.5.
\<close>

lemma used_generator_differs:
  "sim_loop_on (seed_params 12345) (Suc 0) 0 [SeededRandom None]
     = Some ([[100, 171 / 2]], [\<lparr>s0 = 3445694726, s1 = 329769396\<rparr>])
   \<and> sim_loop_on (seed_params 12345) (Suc 0) 0 [\<lparr>s0 = 3445694726, s1 = 329769396\<rparr>]
     = Some ([[100, 211 / 2]], [\<lparr>s0 = 178768438, s1 = 3855015794\<rparr>])"
proof -
  have "sim_loop_on (seed_params 12345) (Suc 0) 0 [g]
        = through 0 [g] (sim_loop (seed_params 12345) (Suc 0) g)" for g
    using sim_loop_on_through [of 0 "[g]" "seed_params 12345" "Suc 0"] by simp
  then show ?thesis
    by (simp only: SeededRandom_default seed_params_fresh_cols seed_params_used_cols)
      (simp add: through_def)
qed

lemma seed_params_first_call:
  "runMonteCarlo_call ((seed_params 12345)\<lparr>randomSeed := None\<rparr>) []
   = Some (Inr [\<lparr>year = 0, p10 = Num 100, p50 = Num 100, p90 = Num 100, successRate = Num 100\<rparr>,
                \<lparr>year = 1, p10 = Num (171 / 2), p50 = Num (171 / 2), p90 = Num (171 / 2),
                  successRate = Num 100\<rparr>],
           [\<lparr>s0 = 3445694726, s1 = 329769396\<rparr>])"
proof -
  let ?p = "(seed_params 12345)\<lparr>randomSeed := None\<rparr>"
  have y: "years ?p = 1" "sims ?p = 1" "randomSeed ?p = None"
    by (simp_all add: seed_params_def DEFAULT_PARAMS_def)
  have s: "sim_loop ?p (Suc 0) (SeededRandom None)
           = Some ([[100, 171 / 2]], \<lparr>s0 = 3445694726, s1 = 329769396\<rparr>)"
    by (simp only: sim_loop_seed SeededRandom_default seed_params_fresh_cols)
  have u: "[0..1] = [0, 1::int]" by (simp add: upto_rec1)
  show ?thesis
    by (simp add: runMonteCarlo_call_eq y s u year_result_def year_summary_def at_index_def
        success_pct_def del: sim_loop.simps)
qed

text \<open>
  C7. Determinism, and no state shared across calls. Every call of runMonteCarlo with a
  configuration \<open>p\<close> has the same outcome \<open>r\<close> whatever generator objects exist when it
  starts, in particular those that earlier calls left behind: it returns, it changes none
  of the existing objects, and it adds one, the generator it constructed from the seed,
  which it leaves in a state \<open>g\<close> that depends on \<open>p\<close> only. When \<open>p\<close> omits the seed,
  the calls with the seed 12345 have this outcome too.
\<close>

theorem calls_share_no_generator:
  "\<exists>r g. (\<forall>h. runMonteCarlo_call p h = Some (r, h @ [g]))
       \<and> (randomSeed p = None \<longrightarrow>
            (\<forall>h. runMonteCarlo_call (p\<lparr>randomSeed := Some 12345\<rparr>) h = Some (r, h @ [g])))"
proof -
  from runMonteCarlo_call_returns [of p] obtain r g
    where "\<forall>h. runMonteCarlo_call p h = Some (r, h @ [g])" by blast
  then show ?thesis by (auto simp add: runMonteCarlo_call_omitted)
qed

text \<open>
  Three calls in a row from the empty store, the first two without a seed and the third with
  the seed 12345: each returns the same two rows and adds its own generator, left in the
  same state.
\<close>

theorem calls_share_no_generator_witness:
  "randomSeed ((seed_params 12345)\<lparr>randomSeed := None\<rparr>) = None
   \<and> runMonteCarlo_call ((seed_params 12345)\<lparr>randomSeed := None\<rparr>) []
     = Some (Inr [\<lparr>year = 0, p10 = Num 100, p50 = Num 100, p90 = Num 100, successRate = Num 100\<rparr>,
                  \<lparr>year = 1, p10 = Num (171 / 2), p50 = Num (171 / 2), p90 = Num (171 / 2),
                    successRate = Num 100\<rparr>],
             [\<lparr>s0 = 3445694726, s1 = 329769396\<rparr>])
   \<and> runMonteCarlo_call ((seed_params 12345)\<lparr>randomSeed := None\<rparr>) [\<lparr>s0 = 3445694726, s1 = 329769396\<rparr>]
     = Some (Inr [\<lparr>year = 0, p10 = Num 100, p50 = Num 100, p90 = Num 100, successRate = Num 100\<rparr>,
                  \<lparr>year = 1, p10 = Num (171 / 2), p50 = Num (171 / 2), p90 = Num (171 / 2),
                    successRate = Num 100\<rparr>],
             [\<lparr>s0 = 3445694726, s1 = 329769396\<rparr>, \<lparr>s0 = 3445694726, s1 = 329769396\<rparr>])
   \<and> runMonteCarlo_call (seed_params 12345)
        [\<lparr>s0 = 3445694726, s1 = 329769396\<rparr>, \<lparr>s0 = 3445694726, s1 = 329769396\<rparr>]
     = Some (Inr [\<lparr>year = 0, p10 = Num 100, p50 = Num 100, p90 = Num 100, successRate = Num 100\<rparr>,
                  \<lparr>year = 1, p10 = Num (171 / 2), p50 = Num (171 / 2), p90 = Num (171 / 2),
                    successRate = Num 100\<rparr>],
             [\<lparr>s0 = 3445694726, s1 = 329769396\<rparr>, \<lparr>s0 = 3445694726, s1 = 329769396\<rparr>,
              \<lparr>s0 = 3445694726, s1 = 329769396\<rparr>])"
proof -
  let ?q = "(seed_params 12345)\<lparr>randomSeed := None\<rparr>"
  let ?g = "\<lparr>s0 = 3445694726, s1 = 329769396\<rparr>"
  have n: "randomSeed ?q = None" by simp
  have q: "?q\<lparr>randomSeed := Some 12345\<rparr> = seed_params 12345"
    by (simp add: seed_params_def)
  from calls_share_no_generator [of ?q] n obtain r g
    where a: "\<And>h. runMonteCarlo_call ?q h = Some (r, h @ [g])"
      and b: "\<And>h. runMonteCarlo_call (?q\<lparr>randomSeed := Some 12345\<rparr>) h = Some (r, h @ [g])"
    by blast
  from a [of "[]"] have e: "Some (r, [g]) = runMonteCarlo_call ?q []" by simp
  have rg: "r = Inr [\<lparr>year = 0, p10 = Num 100, p50 = Num 100, p90 = Num 100, successRate = Num 100\<rparr>,
                  \<lparr>year = 1, p10 = Num (171 / 2), p50 = Num (171 / 2), p90 = Num (171 / 2),
                    successRate = Num 100\<rparr>]" "g = ?g"
    using e unfolding seed_params_first_call by simp_all
  show ?thesis
    using a [of "[]"] a [of "[?g]"] b [of "[?g, ?g]"] n
    unfolding q rg by simp
qed

end
